theory Spec2Isabelle
  imports Complex_Main
begin

section \<open>Conventions of the embedding\<close>

text \<open>
  The TypeScript sources are embedded shallowly.  A JavaScript \<open>number\<close> is modelled as an
  exact \<^typ>\<open>real\<close> (no rounding, no NaN, no infinities); the cost level, which the code only
  ever sets to 1 and increments by 1, is an \<^typ>\<open>int\<close>.  A JavaScript \<open>Map\<close> (and a
  Colyseus \<open>MapSchema\<close>) is an association list in insertion order.  Objects that the
  code mutates in place are passed and returned explicitly; a unit is referred to by
  its key in \<open>serverUnits\<close> and re-read after every mutation, so that aliasing behaves
  as in the source.  Fields of different classes with the same name get a prefix:
  \<open>d_\<close> for UnitDefinition, \<open>u_\<close> for ServerUnit, \<open>us_\<close> for UnitSchema,
  \<open>p_\<close> for PlayerSchema.
\<close>

subsection \<open>JavaScript containers\<close>

text \<open>\<open>arr[i]\<close>: \<open>undefined\<close> (here \<open>None\<close>) outside the array.\<close>

definition js_index :: "'a list \<Rightarrow> int \<Rightarrow> 'a option" where
  "js_index xs i = (if 0 \<le> i \<and> i < int (length xs) then Some (xs ! nat i) else None)"

text \<open>\<open>Map.get\<close>, \<open>Map.set\<close> (an existing key keeps its position, a new one is appended)
  and \<open>Map.delete\<close>.\<close>

definition map_get :: "('k \<times> 'v) list \<Rightarrow> 'k \<Rightarrow> 'v option" where
  "map_get m k = map_of m k"

fun map_set :: "'k \<Rightarrow> 'v \<Rightarrow> ('k \<times> 'v) list \<Rightarrow> ('k \<times> 'v) list" where
  "map_set k v [] = [(k, v)]"
| "map_set k v (e # es) = (if fst e = k then (k, v) # es else e # map_set k v es)"

definition map_delete :: "'k \<Rightarrow> ('k \<times> 'v) list \<Rightarrow> ('k \<times> 'v) list" where
  "map_delete k m = filter (\<lambda>e. fst e \<noteq> k) m"

text \<open>\<open>Array.prototype.indexOf\<close>: the first position of the element, \<open>-1\<close> if absent.\<close>

fun indexOf :: "'a list \<Rightarrow> 'a \<Rightarrow> int" where
  "indexOf [] a = -1"
| "indexOf (b # bs) a = (if b = a then 0 else (let i = indexOf bs a in if i < 0 then -1 else i + 1))"

section \<open>schemas/BattleState.ts: PlayerSchema\<close>

record PlayerSchema =
  p_odeyoId :: string
  p_sessionId :: string
  p_displayName :: string
  p_cost :: real
  p_maxCost :: real
  p_costLevel :: int
  p_castleHp :: real
  p_maxCastleHp :: real
  p_ready :: bool
  p_deck :: "string list"

text \<open>\<open>new PlayerSchema()\<close>: the field initialisers of the class.\<close>

definition new_PlayerSchema :: PlayerSchema where
  "new_PlayerSchema = \<lparr> p_odeyoId = [], p_sessionId = [], p_displayName = [],
     p_cost = 200, p_maxCost = 1000, p_costLevel = 1, p_castleHp = 5000,
     p_maxCastleHp = 5000, p_ready = False, p_deck = [] \<rparr>"

section \<open>systems/ServerCostSystem.ts\<close>

definition maxLevels :: "real list" where
  "maxLevels = [1000, 2500, 4500, 7000, 10000, 15000, 25000, 99999]"

definition upgradeCosts :: "real list" where
  "upgradeCosts = [500, 1200, 2500, 4500, 8000, 12000, 20000]"

definition regenRates :: "real list" where
  "regenRates = [100, 150, 250, 400, 600, 900, 1500, 2500]"

definition INITIAL_COST :: real where
  "INITIAL_COST = 200"

text \<open>\<open>ServerCostSystem.update\<close>; \<open>regenRates[levelIndex] ?? regenRates[0]\<close>.\<close>

definition ServerCostSystem_update :: "PlayerSchema \<Rightarrow> real \<Rightarrow> PlayerSchema" where
  "ServerCostSystem_update player deltaMs =
     (let levelIndex = p_costLevel player - 1;
          regenRate = (case js_index regenRates levelIndex of
                         Some r \<Rightarrow> r | None \<Rightarrow> regenRates ! 0);
          regen = regenRate * (deltaMs / 1000)
      in player\<lparr> p_cost := min (p_cost player + regen) (p_maxCost player) \<rparr>)"

text \<open>\<open>ServerCostSystem.spend\<close> returns the player and the boolean result.\<close>

definition spend :: "PlayerSchema \<Rightarrow> real \<Rightarrow> PlayerSchema \<times> bool" where
  "spend player amount =
     (if p_cost player \<ge> amount
      then (player\<lparr> p_cost := p_cost player - amount \<rparr>, True)
      else (player, False))"

definition canAfford :: "PlayerSchema \<Rightarrow> real \<Rightarrow> bool" where
  "canAfford player amount = (p_cost player \<ge> amount)"

text \<open>\<open>ServerCostSystem.upgradeMax\<close>.  Where the new maximum is read, the level index
  is between 1 and 7 (the two early returns exclude everything else), so the array
  access is in range.\<close>

definition upgradeMax :: "PlayerSchema \<Rightarrow> PlayerSchema \<times> bool" where
  "upgradeMax player =
     (let levelIndex = p_costLevel player - 1 in
      if levelIndex \<ge> int (length maxLevels) - 1 then (player, False)
      else case js_index upgradeCosts levelIndex of
             None \<Rightarrow> (player, False)
           | Some upgradeCost \<Rightarrow>
               if p_cost player < upgradeCost then (player, False)
               else (player\<lparr> p_cost := p_cost player - upgradeCost,
                             p_costLevel := p_costLevel player + 1,
                             p_maxCost := maxLevels ! nat (p_costLevel player + 1 - 1) \<rparr>, True))"

definition canUpgrade :: "PlayerSchema \<Rightarrow> bool" where
  "canUpgrade player =
     (let levelIndex = p_costLevel player - 1 in
      if levelIndex \<ge> int (length maxLevels) - 1 then False
      else case js_index upgradeCosts levelIndex of
             None \<Rightarrow> False
           | Some upgradeCost \<Rightarrow> p_cost player \<ge> upgradeCost)"

definition getUpgradeCost :: "PlayerSchema \<Rightarrow> real option" where
  "getUpgradeCost player =
     (let levelIndex = p_costLevel player - 1 in
      if levelIndex \<ge> int (length upgradeCosts) then None
      else js_index upgradeCosts levelIndex)"

definition initialize :: "PlayerSchema \<Rightarrow> PlayerSchema" where
  "initialize player =
     player\<lparr> p_cost := INITIAL_COST, p_maxCost := maxLevels ! 0, p_costLevel := 1 \<rparr>"

text \<open>The player invariant of the cost system.\<close>

definition cost_inv :: "PlayerSchema \<Rightarrow> bool" where
  "cost_inv player =
     (0 \<le> p_cost player \<and> p_cost player \<le> p_maxCost player \<and>
      1 \<le> p_costLevel player \<and> p_costLevel player \<le> 8 \<and>
      js_index maxLevels (p_costLevel player - 1) = Some (p_maxCost player))"

section \<open>data/types.ts and schemas/BattleState.ts: units and the room state\<close>

datatype Side = Player1 | Player2

datatype UnitState = SPAWN | WALK | ATTACK_WINDUP | ATTACK_COOLDOWN | HITSTUN | DIE

datatype Phase = Waiting | Countdown | Playing | Finished

text \<open>UnitDefinition.  The optional \<open>isBoss\<close> is only ever tested for truthiness, so an
  absent field is \<open>False\<close>; \<open>scale\<close> is the untyped field the combat system reads through
  \<open>(definition as any).scale\<close>.\<close>

record UnitDefinition =
  d_id :: string
  d_name :: string
  d_rarity :: string
  d_cost :: real
  d_maxHp :: real
  d_speed :: real
  d_attackDamage :: real
  d_attackRange :: real
  d_attackCooldownMs :: real
  d_attackWindupMs :: real
  d_spawnCooldownMs :: "real option"
  d_knockback :: real
  d_isBoss :: bool
  d_scale :: "real option"

text \<open>The unit master data (\<open>allies.json\<close>) is not part of the sources: the catalog
  \<open>getUnitDefinition\<close> is a parameter of every function that reads it.\<close>

type_synonym Catalog = "string \<Rightarrow> UnitDefinition option"

definition isValidUnit :: "Catalog \<Rightarrow> string \<Rightarrow> bool" where
  "isValidUnit getUnitDefinition unitId = (getUnitDefinition unitId \<noteq> None)"

record ServerUnit =
  u_instanceId :: string
  u_definitionId :: string
  u_definition :: UnitDefinition
  u_side :: Side
  u_x :: real
  u_hp :: real
  u_maxHp :: real
  u_state :: UnitState
  u_stateTimer :: real
  u_targetId :: "string option"
  u_damageAccumulated :: real
  u_width :: real

text \<open>UnitSchema, the replicated view of a unit; \<open>side\<close> and \<open>state\<close> only ever hold the
  strings of the two types above, and \<open>targetId\<close> is the empty string for no target.\<close>

record UnitSchema =
  us_instanceId :: string
  us_definitionId :: string
  us_side :: Side
  us_x :: real
  us_hp :: real
  us_maxHp :: real
  us_state :: UnitState
  us_stateTimer :: real
  us_targetId :: string
  us_width :: real

text \<open>BattleState, with the two fields \<open>gameSpeed\<close> and \<open>speedVotes\<close> that BattleRoom.ts
  reads and writes.\<close>

record BattleState =
  phase :: Phase
  gameTime :: real
  countdown :: int
  stageLength :: real
  players :: "(string \<times> PlayerSchema) list"
  units :: "(string \<times> UnitSchema) list"
  winnerId :: string
  winReason :: string
  gameSpeed :: real
  speedVotes :: "(string \<times> bool) list"

text \<open>\<open>new BattleState()\<close>.  The initial values of \<open>gameSpeed\<close> and \<open>speedVotes\<close> are
  not in the sources; the first join overwrites both.\<close>

definition new_BattleState :: BattleState where
  "new_BattleState = \<lparr> phase = Waiting, gameTime = 0, countdown = 3, stageLength = 1200,
     players = [], units = [], winnerId = [], winReason = [], gameSpeed = 1, speedVotes = [] \<rparr>"

section \<open>systems/ServerCombatSystem.ts\<close>

text \<open>The combat system holds a reference to the room's BattleState; the room reads
  and writes the same object, so the state lives here and nowhere else.\<close>

record ServerCombatSystem =
  state :: BattleState
  serverUnits :: "(string \<times> ServerUnit) list"
  killCounts :: "(string \<times> nat) list"

definition new_ServerCombatSystem :: "BattleState \<Rightarrow> ServerCombatSystem" where
  "new_ServerCombatSystem st = \<lparr> state = st, serverUnits = [], killCounts = [] \<rparr>"

definition CASTLE_POSITIONS :: "Side \<Rightarrow> real" where
  "CASTLE_POSITIONS sd = (case sd of Player1 \<Rightarrow> 80 | Player2 \<Rightarrow> 1120)"

definition DEFAULT_UNIT_WIDTH :: real where
  "DEFAULT_UNIT_WIDTH = 60"

definition UNIT_MIN_DISTANCE :: real where
  "UNIT_MIN_DISTANCE = 30"

definition side_string :: "Side \<Rightarrow> string" where
  "side_string sd = (case sd of Player1 \<Rightarrow> ''player1'' | Player2 \<Rightarrow> ''player2'')"

definition enemy_of :: "Side \<Rightarrow> Side" where
  "enemy_of sd = (if sd = Player1 then Player2 else Player1)"

definition getKillCount :: "ServerCombatSystem \<Rightarrow> string \<Rightarrow> nat" where
  "getKillCount cs sessionId = (case map_get (killCounts cs) sessionId of Some n \<Rightarrow> n | None \<Rightarrow> 0)"

subsection \<open>Helpers on the players map\<close>

definition getPlayerSide :: "BattleState \<Rightarrow> string \<Rightarrow> Side option" where
  "getPlayerSide st sessionId =
     (let playerIds = map fst (players st);
          index = indexOf playerIds sessionId
      in if index = 0 then Some Player1 else if index = 1 then Some Player2 else None)"

definition getSessionIdBySide :: "BattleState \<Rightarrow> Side \<Rightarrow> string option" where
  "getSessionIdBySide st sd =
     (let playerIds = map fst (players st)
      in if sd = Player1 then js_index playerIds 0 else js_index playerIds 1)"

text \<open>\<open>return sessionId ? this.state.players.get(sessionId) : undefined\<close>: an empty
  session id is falsy.\<close>

definition getPlayerBySide :: "BattleState \<Rightarrow> Side \<Rightarrow> PlayerSchema option" where
  "getPlayerBySide st sd =
     (case getSessionIdBySide st sd of
        None \<Rightarrow> None
      | Some sessionId \<Rightarrow> if sessionId = [] then None else map_get (players st) sessionId)"

subsection \<open>spawnUnit\<close>

text \<open>\<open>Date.now()\<close> and the random suffix are parameters, already rendered as text.\<close>

definition spawnUnit ::
  "Catalog \<Rightarrow> string \<Rightarrow> string \<Rightarrow> ServerCombatSystem \<Rightarrow> PlayerSchema \<Rightarrow> string
     \<Rightarrow> ServerCombatSystem \<times> string option" where
  "spawnUnit getUnitDefinition now rnd cs player unitId =
     (case getUnitDefinition unitId of
        None \<Rightarrow> (cs, None)
      | Some definition \<Rightarrow>
          (case getPlayerSide (state cs) (p_sessionId player) of
             None \<Rightarrow> (cs, None)
           | Some sd \<Rightarrow>
               (let spawnX = (if sd = Player1 then CASTLE_POSITIONS Player1 + 50
                              else CASTLE_POSITIONS Player2 - 50);
                    instanceId = side_string sd @ ''_'' @ unitId @ ''_'' @ now @ ''_'' @ rnd;
                    scale = (case d_scale definition of
                               None \<Rightarrow> 1 | Some sc \<Rightarrow> if sc = 0 then 1 else sc);
                    unitWidth = DEFAULT_UNIT_WIDTH * scale;
                    serverUnit = \<lparr> u_instanceId = instanceId, u_definitionId = unitId,
                      u_definition = definition, u_side = sd, u_x = spawnX,
                      u_hp = d_maxHp definition, u_maxHp = d_maxHp definition,
                      u_state = SPAWN, u_stateTimer = 0, u_targetId = None,
                      u_damageAccumulated = 0, u_width = unitWidth \<rparr>;
                    unitSchema = \<lparr> us_instanceId = instanceId, us_definitionId = unitId,
                      us_side = sd, us_x = spawnX, us_hp = d_maxHp definition,
                      us_maxHp = d_maxHp definition, us_state = SPAWN, us_stateTimer = 0,
                      us_targetId = [], us_width = unitWidth \<rparr>
                in (cs\<lparr> serverUnits := map_set instanceId serverUnit (serverUnits cs),
                        state := (state cs)\<lparr> units := map_set instanceId unitSchema (units (state cs)) \<rparr> \<rparr>,
                    Some instanceId))))"

subsection \<open>Geometry\<close>

definition getEdgeDistance :: "ServerUnit \<Rightarrow> ServerUnit \<Rightarrow> real" where
  "getEdgeDistance unitA unitB =
     (let xA = u_x unitA; xB = u_x unitB;
          halfWidthA = u_width unitA / 2; halfWidthB = u_width unitB / 2
      in if xA < xB then (xB - halfWidthB) - (xA + halfWidthA)
         else (xA - halfWidthA) - (xB + halfWidthB))"

definition isInRange :: "ServerUnit \<Rightarrow> ServerUnit \<Rightarrow> bool" where
  "isInRange attacker target =
     (getEdgeDistance attacker target \<le> d_attackRange (u_definition attacker))"

definition isInRangeOfEnemyCastle :: "ServerUnit \<Rightarrow> bool" where
  "isInRangeOfEnemyCastle unit =
     (let enemyCastleX = (if u_side unit = Player1 then CASTLE_POSITIONS Player2
                          else CASTLE_POSITIONS Player1);
          halfWidth = u_width unit / 2;
          edgeX = (if u_side unit = Player1 then u_x unit + halfWidth else u_x unit - halfWidth);
          distance = \<bar>edgeX - enemyCastleX\<bar>
      in distance \<le> d_attackRange (u_definition unit))"

text \<open>\<open>unit.targetId ? this.serverUnits.get(unit.targetId) : null\<close>: no target id, or
  the empty string, is falsy.\<close>

definition lookupTarget :: "ServerCombatSystem \<Rightarrow> ServerUnit \<Rightarrow> ServerUnit option" where
  "lookupTarget cs unit =
     (case u_targetId unit of
        None \<Rightarrow> None
      | Some tid \<Rightarrow> if tid = [] then None else map_get (serverUnits cs) tid)"

definition setUnitState :: "ServerUnit \<Rightarrow> UnitState \<Rightarrow> ServerUnit" where
  "setUnitState unit st = unit\<lparr> u_state := st, u_stateTimer := 0 \<rparr>"

text \<open>The loop of \<open>isBlockedByEnemy\<close> over the entries of \<open>serverUnits\<close>.\<close>

fun isBlockedByEnemy_loop :: "ServerUnit \<Rightarrow> ServerUnit list \<Rightarrow> bool" where
  "isBlockedByEnemy_loop unit [] = False"
| "isBlockedByEnemy_loop unit (enemy # rest) =
     (let enemySide = enemy_of (u_side unit);
          isMovingRight = (u_side unit = Player1)
      in if u_side enemy \<noteq> enemySide \<or> u_state enemy = DIE then isBlockedByEnemy_loop unit rest
         else if \<not> (if isMovingRight then u_x enemy > u_x unit else u_x enemy < u_x unit)
              then isBlockedByEnemy_loop unit rest
         else (let distanceToEdge = getEdgeDistance unit enemy;
                   minDistance = (u_width unit + u_width enemy) / 2 * 0.5 + UNIT_MIN_DISTANCE
               in if distanceToEdge < minDistance then True
                  else isBlockedByEnemy_loop unit rest))"

definition isBlockedByEnemy :: "ServerCombatSystem \<Rightarrow> ServerUnit \<Rightarrow> bool" where
  "isBlockedByEnemy cs unit = isBlockedByEnemy_loop unit (map snd (serverUnits cs))"

subsection \<open>State handlers that change the unit alone\<close>

definition handleSpawn :: "ServerUnit \<Rightarrow> ServerUnit" where
  "handleSpawn unit = (if u_stateTimer unit \<ge> 300 then setUnitState unit WALK else unit)"

definition handleWalk :: "ServerCombatSystem \<Rightarrow> ServerUnit \<Rightarrow> real \<Rightarrow> ServerUnit" where
  "handleWalk cs unit deltaMs =
     (let target = lookupTarget cs unit in
      if (case target of None \<Rightarrow> False | Some t \<Rightarrow> isInRange unit t)
      then setUnitState unit ATTACK_WINDUP
      else if isInRangeOfEnemyCastle unit then setUnitState unit ATTACK_WINDUP
      else if isBlockedByEnemy cs unit then unit
      else (let speed = d_speed (u_definition unit) * (deltaMs / 1000);
                direction = (if u_side unit = Player1 then 1 else -1);
                moved = unit\<lparr> u_x := u_x unit + speed * direction \<rparr>
            in if u_side moved = Player1
               then moved\<lparr> u_x := min (u_x moved) (stageLength (state cs) - 30) \<rparr>
               else moved\<lparr> u_x := max (u_x moved) 80 \<rparr>))"

definition handleAttackCooldown :: "ServerCombatSystem \<Rightarrow> ServerUnit \<Rightarrow> ServerUnit" where
  "handleAttackCooldown cs unit =
     (if u_stateTimer unit \<ge> d_attackCooldownMs (u_definition unit) then
        (let target = lookupTarget cs unit in
         if (case target of None \<Rightarrow> False
             | Some t \<Rightarrow> u_state t \<noteq> DIE \<and> isInRange unit t)
         then setUnitState unit ATTACK_WINDUP
         else if isInRangeOfEnemyCastle unit then setUnitState unit ATTACK_WINDUP
         else setUnitState (unit\<lparr> u_targetId := None \<rparr>) WALK)
      else unit)"

definition handleHitstun :: "ServerUnit \<Rightarrow> ServerUnit" where
  "handleHitstun unit = (if u_stateTimer unit \<ge> 200 then setUnitState unit WALK else unit)"

subsection \<open>Damage\<close>

text \<open>\<open>applyDamage\<close> mutates the target and the kill counters; it returns both.\<close>

definition applyDamage ::
  "ServerCombatSystem \<Rightarrow> ServerUnit \<Rightarrow> real \<Rightarrow> real \<Rightarrow> Side option
     \<Rightarrow> ServerUnit \<times> (string \<times> nat) list" where
  "applyDamage cs target damage knockback attackerSide =
     (let t1 = target\<lparr> u_hp := u_hp target - damage,
                       u_damageAccumulated := u_damageAccumulated target + damage \<rparr>
      in if u_hp t1 \<le> 0 then
           (let t2 = setUnitState (t1\<lparr> u_hp := 0 \<rparr>) DIE;
                kc = (case attackerSide of
                        None \<Rightarrow> killCounts cs
                      | Some sd \<Rightarrow>
                          (case getSessionIdBySide (state cs) sd of
                             None \<Rightarrow> killCounts cs
                           | Some attackerSessionId \<Rightarrow>
                               if attackerSessionId = [] then killCounts cs
                               else (let currentKills =
                                           (case map_get (killCounts cs) attackerSessionId of
                                              Some n \<Rightarrow> n | None \<Rightarrow> 0)
                                     in map_set attackerSessionId (currentKills + 1) (killCounts cs))))
            in (t2, kc))
         else
           (let kbThreshold = u_maxHp t1 * 0.15 in
            if \<not> d_isBoss (u_definition t1) \<and> u_damageAccumulated t1 \<ge> kbThreshold then
              (let t2 = t1\<lparr> u_damageAccumulated := 0 \<rparr>;
                   knockbackDir = (if u_side t2 = Player1 then -1 else 1);
                   t3 = t2\<lparr> u_x := u_x t2 + knockback * knockbackDir \<rparr>;
                   t4 = (if u_side t3 = Player1 then t3\<lparr> u_x := max (u_x t3) 80 \<rparr>
                         else t3\<lparr> u_x := min (u_x t3) (stageLength (state cs) - 30) \<rparr>)
               in (if u_state t4 \<noteq> DIE then setUnitState t4 HITSTUN else t4, killCounts cs))
            else (t1, killCounts cs)))"

text \<open>\<open>dealDamage\<close>.  The target object is the entry of \<open>serverUnits\<close> under the
  attacker's target id, the enemy player the entry of \<open>players\<close> under the session id of
  the enemy side; the mutated objects are written back under these keys.\<close>

definition dealDamage :: "ServerCombatSystem \<Rightarrow> ServerUnit \<Rightarrow> ServerCombatSystem" where
  "dealDamage cs attacker =
     (let target = lookupTarget cs attacker in
      if (case target of None \<Rightarrow> False | Some t \<Rightarrow> u_state t \<noteq> DIE) then
        (let (t', kc) = applyDamage cs (the target) (d_attackDamage (u_definition attacker))
                          (d_knockback (u_definition attacker)) (Some (u_side attacker))
         in cs\<lparr> serverUnits := map_set (the (u_targetId attacker)) t' (serverUnits cs),
                killCounts := kc \<rparr>)
      else
        (let enemySide = enemy_of (u_side attacker);
             enemyPlayer = getPlayerBySide (state cs) enemySide
         in case enemyPlayer of
              None \<Rightarrow> cs
            | Some ep \<Rightarrow>
                if isInRangeOfEnemyCastle attacker then
                  (let ep1 = ep\<lparr> p_castleHp := p_castleHp ep - d_attackDamage (u_definition attacker) \<rparr>;
                       ep2 = (if p_castleHp ep1 < 0 then ep1\<lparr> p_castleHp := 0 \<rparr> else ep1)
                   in cs\<lparr> state := (state cs)\<lparr> players :=
                            map_set (the (getSessionIdBySide (state cs) enemySide)) ep2
                              (players (state cs)) \<rparr> \<rparr>)
                else cs))"

text \<open>\<open>handleAttackWindup\<close> for the unit stored under key \<open>k\<close>.  The unit is read again
  after \<open>dealDamage\<close>, which may have changed it if it is its own target.\<close>

definition handleAttackWindup :: "ServerCombatSystem \<Rightarrow> string \<Rightarrow> ServerCombatSystem" where
  "handleAttackWindup cs k =
     (case map_get (serverUnits cs) k of
        None \<Rightarrow> cs
      | Some unit \<Rightarrow>
          if u_stateTimer unit \<ge> d_attackWindupMs (u_definition unit) then
            (let cs1 = dealDamage cs unit in
             case map_get (serverUnits cs1) k of
               None \<Rightarrow> cs1
             | Some unit1 \<Rightarrow>
                 cs1\<lparr> serverUnits := map_set k (setUnitState unit1 ATTACK_COOLDOWN) (serverUnits cs1) \<rparr>)
          else cs)"

subsection \<open>The per-unit part of update\<close>

definition updateUnitState :: "ServerCombatSystem \<Rightarrow> string \<Rightarrow> real \<Rightarrow> ServerCombatSystem" where
  "updateUnitState cs k deltaMs =
     (case map_get (serverUnits cs) k of
        None \<Rightarrow> cs
      | Some unit \<Rightarrow>
          (case u_state unit of
             SPAWN \<Rightarrow> cs\<lparr> serverUnits := map_set k (handleSpawn unit) (serverUnits cs) \<rparr>
           | WALK \<Rightarrow> cs\<lparr> serverUnits := map_set k (handleWalk cs unit deltaMs) (serverUnits cs) \<rparr>
           | ATTACK_WINDUP \<Rightarrow> handleAttackWindup cs k
           | ATTACK_COOLDOWN \<Rightarrow>
               cs\<lparr> serverUnits := map_set k (handleAttackCooldown cs unit) (serverUnits cs) \<rparr>
           | HITSTUN \<Rightarrow> cs\<lparr> serverUnits := map_set k (handleHitstun unit) (serverUnits cs) \<rparr>
           | DIE \<Rightarrow> cs))"

text \<open>The schema synchronisation at the end of the loop body of \<open>update\<close>;
  \<open>serverUnit.targetId || ''\<close>.\<close>

definition syncSchema :: "ServerCombatSystem \<Rightarrow> string \<Rightarrow> ServerCombatSystem" where
  "syncSchema cs k =
     (case (map_get (serverUnits cs) k, map_get (units (state cs)) k) of
        (Some serverUnit, Some schema) \<Rightarrow>
          cs\<lparr> state := (state cs)\<lparr> units :=
                 map_set k (schema\<lparr> us_x := u_x serverUnit, us_hp := u_hp serverUnit,
                                    us_state := u_state serverUnit,
                                    us_stateTimer := u_stateTimer serverUnit,
                                    us_targetId := (case u_targetId serverUnit of
                                                      None \<Rightarrow> [] | Some t \<Rightarrow> t),
                                    us_width := u_width serverUnit \<rparr>)
                   (units (state cs)) \<rparr> \<rparr>
      | _ \<Rightarrow> cs)"

definition update_unit :: "real \<Rightarrow> ServerCombatSystem \<Rightarrow> string \<Rightarrow> ServerCombatSystem" where
  "update_unit deltaMs cs k =
     (case map_get (serverUnits cs) k of
        None \<Rightarrow> cs
      | Some serverUnit \<Rightarrow>
          (let cs1 = cs\<lparr> serverUnits :=
                       map_set k (serverUnit\<lparr> u_stateTimer := u_stateTimer serverUnit + deltaMs \<rparr>)
                         (serverUnits cs) \<rparr>;
               cs2 = (if u_state serverUnit \<noteq> DIE then updateUnitState cs1 k deltaMs else cs1)
           in syncSchema cs2 k))"

subsection \<open>Same-side collisions\<close>

definition clampUnitPosition :: "ServerCombatSystem \<Rightarrow> ServerUnit \<Rightarrow> ServerUnit" where
  "clampUnitPosition cs unit =
     (if u_side unit = Player1 then
        (let a = unit\<lparr> u_x := max (u_x unit) (CASTLE_POSITIONS Player1 + 30) \<rparr>
         in a\<lparr> u_x := min (u_x a) (stageLength (state cs) - 30) \<rparr>)
      else
        (let a = unit\<lparr> u_x := max (u_x unit) 80 \<rparr>
         in a\<lparr> u_x := min (u_x a) (CASTLE_POSITIONS Player2 - 30) \<rparr>))"

text \<open>The body of the inner loop for the pair of units stored under \<open>ka\<close> and \<open>kb\<close>.\<close>

definition collide_pair :: "ServerCombatSystem \<Rightarrow> string \<Rightarrow> string \<Rightarrow> ServerCombatSystem" where
  "collide_pair cs ka kb =
     (case (map_get (serverUnits cs) ka, map_get (serverUnits cs) kb) of
        (Some unitA, Some unitB) \<Rightarrow>
          if u_side unitA \<noteq> u_side unitB then cs
          else
            (let distance = \<bar>u_x unitA - u_x unitB\<bar>;
                 minDistance = (u_width unitA + u_width unitB) / 2 * 0.6 + UNIT_MIN_DISTANCE
             in if distance < minDistance \<and> distance > 0 then
                  (let overlap = minDistance - distance;
                       pushAmount = overlap * 0.5;
                       a1 = (if u_x unitA < u_x unitB
                             then unitA\<lparr> u_x := u_x unitA - pushAmount / 2 \<rparr>
                             else unitA\<lparr> u_x := u_x unitA + pushAmount / 2 \<rparr>);
                       b1 = (if u_x unitA < u_x unitB
                             then unitB\<lparr> u_x := u_x unitB + pushAmount / 2 \<rparr>
                             else unitB\<lparr> u_x := u_x unitB - pushAmount / 2 \<rparr>)
                   in cs\<lparr> serverUnits :=
                          map_set kb (clampUnitPosition cs b1)
                            (map_set ka (clampUnitPosition cs a1) (serverUnits cs)) \<rparr>)
                else cs)
      | _ \<Rightarrow> cs)"

fun collide_outer :: "ServerCombatSystem \<Rightarrow> string list \<Rightarrow> ServerCombatSystem" where
  "collide_outer cs [] = cs"
| "collide_outer cs (ka # rest) = collide_outer (foldl (\<lambda>c kb. collide_pair c ka kb) cs rest) rest"

definition resolveUnitCollisions :: "ServerCombatSystem \<Rightarrow> ServerCombatSystem" where
  "resolveUnitCollisions cs =
     collide_outer cs (map fst (filter (\<lambda>(k, u). u_state u \<noteq> DIE) (serverUnits cs)))"

subsection \<open>Targeting\<close>

text \<open>The loop of \<open>findTarget\<close>; \<open>None\<close> as a minimum stands for \<open>Infinity\<close>.\<close>

fun findTarget_loop ::
  "ServerUnit \<Rightarrow> ServerUnit list \<Rightarrow> (ServerUnit \<times> real) option \<Rightarrow> (ServerUnit \<times> real) option
     \<Rightarrow> string option" where
  "findTarget_loop attacker [] front anyone =
     (case front of
        Some (closestInFront, _) \<Rightarrow> Some (u_instanceId closestInFront)
      | None \<Rightarrow> (case anyone of
                   Some (closestAny, _) \<Rightarrow> Some (u_instanceId closestAny)
                 | None \<Rightarrow> None))"
| "findTarget_loop attacker (unit # rest) front anyone =
     (if u_side unit \<noteq> enemy_of (u_side attacker) \<or> u_state unit = DIE
      then findTarget_loop attacker rest front anyone
      else
        (let edgeDistance = getEdgeDistance attacker unit in
         if edgeDistance > d_attackRange (u_definition attacker) + 20
         then findTarget_loop attacker rest front anyone
         else
           (let isInFront = (if u_side attacker = Player1 then u_x unit > u_x attacker
                             else u_x unit < u_x attacker);
                front' = (if isInFront \<and> (case front of None \<Rightarrow> True
                                            | Some (_, minDistanceFront) \<Rightarrow> edgeDistance < minDistanceFront)
                          then Some (unit, edgeDistance) else front);
                anyone' = (if (case anyone of None \<Rightarrow> True
                               | Some (_, minDistanceAny) \<Rightarrow> edgeDistance < minDistanceAny)
                           then Some (unit, edgeDistance) else anyone)
            in findTarget_loop attacker rest front' anyone')))"

definition findTarget :: "ServerCombatSystem \<Rightarrow> ServerUnit \<Rightarrow> string option" where
  "findTarget cs attacker = findTarget_loop attacker (map snd (serverUnits cs)) None None"

definition assignTargets_unit :: "ServerCombatSystem \<Rightarrow> string \<Rightarrow> ServerCombatSystem" where
  "assignTargets_unit cs k =
     (case map_get (serverUnits cs) k of
        None \<Rightarrow> cs
      | Some unit \<Rightarrow>
          if u_state unit = DIE then cs
          else if (case lookupTarget cs unit of None \<Rightarrow> False
                   | Some currentTarget \<Rightarrow> u_state currentTarget \<noteq> DIE \<and> isInRange unit currentTarget)
          then cs
          else cs\<lparr> serverUnits :=
                    map_set k (unit\<lparr> u_targetId := findTarget cs unit \<rparr>) (serverUnits cs) \<rparr>)"

definition assignTargets :: "ServerCombatSystem \<Rightarrow> ServerCombatSystem" where
  "assignTargets cs = foldl assignTargets_unit cs (map fst (serverUnits cs))"

subsection \<open>Cleanup and win condition\<close>

definition cleanupDeadUnits :: "ServerCombatSystem \<Rightarrow> ServerCombatSystem" where
  "cleanupDeadUnits cs =
     (let toRemove = map fst (filter (\<lambda>(k, unit). u_state unit = DIE \<and> u_stateTimer unit \<ge> 500)
                                (serverUnits cs))
      in foldl (\<lambda>c instanceId.
                  c\<lparr> serverUnits := map_delete instanceId (serverUnits c),
                     state := (state c)\<lparr> units := map_delete instanceId (units (state c)) \<rparr> \<rparr>)
           cs toRemove)"

text \<open>The \<open>forEach\<close> of \<open>checkWinCondition\<close>: the last player of each side wins the
  variable.\<close>

fun checkWin_players ::
  "BattleState \<Rightarrow> (string \<times> PlayerSchema) list \<Rightarrow> PlayerSchema option \<Rightarrow> PlayerSchema option
     \<Rightarrow> PlayerSchema option \<times> PlayerSchema option" where
  "checkWin_players st [] player1 player2 = (player1, player2)"
| "checkWin_players st ((sessionId, player) # rest) player1 player2 =
     (let sd = getPlayerSide st sessionId
      in checkWin_players st rest
           (if sd = Some Player1 then Some player else player1)
           (if sd = Some Player2 then Some player else player2))"

definition checkWinCondition :: "ServerCombatSystem \<Rightarrow> ServerCombatSystem" where
  "checkWinCondition cs =
     (if phase (state cs) \<noteq> Playing then cs
      else case checkWin_players (state cs) (players (state cs)) None None of
             (Some player1, Some player2) \<Rightarrow>
               if p_castleHp player1 \<le> 0 then
                 cs\<lparr> state := (state cs)\<lparr> phase := Finished, winnerId := p_sessionId player2,
                                          winReason := ''castle_destroyed'' \<rparr> \<rparr>
               else if p_castleHp player2 \<le> 0 then
                 cs\<lparr> state := (state cs)\<lparr> phase := Finished, winnerId := p_sessionId player1,
                                          winReason := ''castle_destroyed'' \<rparr> \<rparr>
               else cs
           | _ \<Rightarrow> cs)"

definition ServerCombatSystem_update :: "ServerCombatSystem \<Rightarrow> real \<Rightarrow> ServerCombatSystem" where
  "ServerCombatSystem_update cs deltaMs =
     checkWinCondition (cleanupDeadUnits (assignTargets (resolveUnitCollisions
       (foldl (update_unit deltaMs) cs (map fst (serverUnits cs))))))"

definition reset :: "ServerCombatSystem \<Rightarrow> ServerCombatSystem" where
  "reset cs = cs\<lparr> serverUnits := [], killCounts := [], state := (state cs)\<lparr> units := [] \<rparr> \<rparr>"

section \<open>rooms/BattleRoom.ts\<close>

subsection \<open>Messages and effects\<close>

datatype ErrorCode =
  GAME_NOT_PLAYING | INVALID_UNIT | UNIT_NOT_IN_DECK | COOLDOWN | INSUFFICIENT_COST
  | SPAWN_FAILED | CANNOT_UPGRADE

text \<open>The text of an error message is a template with numbers and strings spliced in; it
  is kept as the list of its parts.\<close>

datatype MsgPart = Txt string | Num real | Null

text \<open>The payload of \<open>phase_change\<close>: \<open>phase\<close>, the optional \<open>countdown\<close>, \<open>winnerId\<close> and
  \<open>winReason\<close>, then \<open>gameSpeed\<close> and \<open>speedVotes\<close>.\<close>

record PhaseChangePayload =
  pc_phase :: Phase
  pc_countdown :: "int option"
  pc_winnerId :: "string option"
  pc_winReason :: "string option"
  pc_gameSpeed :: real
  pc_speedVotes :: "(string \<times> bool) list"

text \<open>The messages of the room.  \<open>PlayerJoined\<close> and \<open>AllPlayers\<close> carry exactly the fields
  of a PlayerSchema; \<open>UnitSpawned\<close> and \<open>UnitsSync\<close> carry the fields of a UnitSchema
  without its width; \<open>PlayersSync\<close> carries session id, cost, maxCost, costLevel,
  castleHp and maxCastleHp.\<close>

datatype Message =
  PlayerJoined PlayerSchema
  | AllPlayers "PlayerSchema list"
  | SpeedUpdate real "(string \<times> bool) list"
  | UnitSpawned UnitSchema
  | UnitsSync "UnitSchema list"
  | PlayersSync "(string \<times> real \<times> real \<times> int \<times> real \<times> real) list"
  | PhaseChange PhaseChangePayload
  | CountdownUpdate int
  | Error ErrorCode "MsgPart list"

record BattleResult =
  player1_id :: string
  player2_id :: string
  player1_name :: string
  player2_name :: string
  player1_deck :: "string list"
  player2_deck :: "string list"
  winner_player_num :: nat
  player1_castle_hp :: real
  player2_castle_hp :: real
  player1_kills :: nat
  player2_kills :: nat
  battle_duration :: int
  win_reason :: string

text \<open>What the room does to the outside: \<open>this.broadcast\<close>, \<open>client.send\<close>,
  \<open>client.leave()\<close>, \<open>this.lock()\<close> and the call of \<open>saveRealtimeBattleResult\<close>.\<close>

datatype Effect =
  Broadcast Message
  | Send string Message
  | ClientLeave string
  | Lock
  | SaveBattleResult BattleResult

record Metadata =
  md_status :: string
  md_hostName :: string
  md_hostDeckPreview :: "string list"
  md_createdAt :: real

record JoinOptions =
  o_odeyoId :: "string option"
  o_displayName :: "string option"
  o_deck :: "string list option"

text \<open>The room.  \<open>gameLoop\<close> tells whether the interval handle is set;
  \<open>countdownIntervals\<close> counts the live intervals created by \<open>startCountdown\<close>, whose
  handle is a local variable of that method; \<open>effects\<close> is the log of everything sent,
  oldest first.\<close>

record BattleRoom =
  combatSystem :: ServerCombatSystem
  gameLoop :: bool
  countdownIntervals :: nat
  lastUpdateTime :: real
  spawnCooldowns :: "(string \<times> (string \<times> real) list) list"
  metadata :: Metadata
  locked :: bool
  effects :: "Effect list"

definition DEFAULT_SPAWN_COOLDOWNS :: "(string \<times> real) list" where
  "DEFAULT_SPAWN_COOLDOWNS =
     [(''N'', 2000), (''R'', 4000), (''SR'', 6000), (''SSR'', 8000), (''UR'', 10000)]"

definition TICK_RATE :: real where "TICK_RATE = 20"
definition COUNTDOWN_SECONDS :: int where "COUNTDOWN_SECONDS = 3"
definition STAGE_LENGTH :: real where "STAGE_LENGTH = 1200"
definition CASTLE_HP :: real where "CASTLE_HP = 5000"

text \<open>\<open>this.state\<close> of the room is the state object the combat system holds.\<close>

definition room_state :: "BattleRoom \<Rightarrow> BattleState" where
  "room_state r = state (combatSystem r)"

definition set_state :: "BattleRoom \<Rightarrow> BattleState \<Rightarrow> BattleRoom" where
  "set_state r st = r\<lparr> combatSystem := (combatSystem r)\<lparr> state := st \<rparr> \<rparr>"

definition emit :: "BattleRoom \<Rightarrow> Effect \<Rightarrow> BattleRoom" where
  "emit r e = r\<lparr> effects := effects r @ [e] \<rparr>"

definition sendError :: "BattleRoom \<Rightarrow> string \<Rightarrow> ErrorCode \<Rightarrow> MsgPart list \<Rightarrow> BattleRoom" where
  "sendError r client code message = emit r (Send client (Error code message))"

definition getSpeedVotesObject :: "BattleRoom \<Rightarrow> (string \<times> bool) list" where
  "getSpeedVotesObject r = foldl (\<lambda>votes (key, v). map_set key (v = True) votes) [] (speedVotes (room_state r))"

definition recalculateGameSpeed :: "BattleRoom \<Rightarrow> BattleRoom" where
  "recalculateGameSpeed r =
     (let st = room_state r;
          r1 = (if length (players st) < 2 then set_state r (st\<lparr> gameSpeed := 1 \<rparr>)
                else (let allAgreed = list_all (\<lambda>(sessionId, _).
                                         map_get (speedVotes st) sessionId = Some True) (players st)
                      in set_state r (st\<lparr> gameSpeed := (if allAgreed then 2 else 1) \<rparr>)))
      in emit r1 (Broadcast (SpeedUpdate (gameSpeed (room_state r1)) (getSpeedVotesObject r1))))"

definition stopGameLoop :: "BattleRoom \<Rightarrow> BattleRoom" where
  "stopGameLoop r = (if gameLoop r then r\<lparr> gameLoop := False \<rparr> else r)"

subsection \<open>Lifecycle: onCreate, onJoin, onLeave\<close>

text \<open>\<open>Date.now()\<close> is the parameter \<open>now\<close>.\<close>

definition onCreate :: "real \<Rightarrow> BattleRoom" where
  "onCreate now =
     \<lparr> combatSystem = new_ServerCombatSystem (new_BattleState\<lparr> stageLength := STAGE_LENGTH \<rparr>),
       gameLoop = False, countdownIntervals = 0, lastUpdateTime = 0, spawnCooldowns = [],
       metadata = \<lparr> md_status = ''waiting'', md_hostName = [], md_hostDeckPreview = [],
                    md_createdAt = now \<rparr>,
       locked = False, effects = [] \<rparr>"

text \<open>The default display name \<open>Player ${size + 1}\<close>; where it is built the room holds
  fewer than two players.\<close>

definition default_name :: "nat \<Rightarrow> string" where
  "default_name size_players = (if size_players = 0 then ''Player 1'' else ''Player 2'')"

definition player_view :: "string \<times> PlayerSchema \<Rightarrow> PlayerSchema" where
  "player_view e = (snd e)\<lparr> p_sessionId := fst e \<rparr>"

definition onJoin :: "Catalog \<Rightarrow> real \<Rightarrow> BattleRoom \<Rightarrow> string \<Rightarrow> JoinOptions \<Rightarrow> BattleRoom" where
  "onJoin getUnitDefinition now r client options =
     (if length (players (room_state r)) \<ge> 2 then emit r (ClientLeave client)
      else
        (let st = room_state r;
             receivedDeck = (case o_deck options of None \<Rightarrow> [] | Some d \<Rightarrow> d);
             validDeck = take 7 (filter (isValidUnit getUnitDefinition) receivedDeck);
             player = initialize (new_PlayerSchema\<lparr>
                        p_sessionId := client,
                        p_odeyoId := (case o_odeyoId options of
                                        None \<Rightarrow> client | Some i \<Rightarrow> if i = [] then client else i),
                        p_displayName := (case o_displayName options of
                                            None \<Rightarrow> default_name (length (players st))
                                          | Some n \<Rightarrow> if n = [] then default_name (length (players st))
                                                      else n),
                        p_castleHp := CASTLE_HP,
                        p_maxCastleHp := CASTLE_HP,
                        p_deck := validDeck \<rparr>);
             r1 = set_state r (st\<lparr> players := map_set client player (players st) \<rparr>);
             r2 = r1\<lparr> spawnCooldowns := map_set client [] (spawnCooldowns r1) \<rparr>;
             r3 = set_state r2 ((room_state r2)\<lparr> speedVotes :=
                                   map_set client False (speedVotes (room_state r2)) \<rparr>);
             r4 = recalculateGameSpeed r3;
             r5 = (if length (players (room_state r4)) = 1 then
                     (let visibleCount = nat \<lceil>real (length validDeck) / 2\<rceil>;
                          deckPreview = take visibleCount validDeck
                      in r4\<lparr> metadata := \<lparr> md_status = ''waiting'',
                                            md_hostName = p_displayName player,
                                            md_hostDeckPreview = deckPreview,
                                            md_createdAt = now \<rparr> \<rparr>)
                   else r4);
             r6 = emit r5 (Broadcast (PlayerJoined player));
             r7 = emit r6 (Send client (AllPlayers (map player_view (players (room_state r6)))));
             r8 = emit r7 (Send client (SpeedUpdate (gameSpeed (room_state r7)) (getSpeedVotesObject r7)))
         in if length (players (room_state r8)) = 2 then emit (r8\<lparr> locked := True \<rparr>) Lock else r8))"

text \<open>The \<open>forEach\<close> of \<open>onLeave\<close>: every other session id is written to \<open>winnerId\<close> in
  turn.\<close>

definition onLeave :: "BattleRoom \<Rightarrow> string \<Rightarrow> BattleRoom" where
  "onLeave r client =
     (let st = room_state r;
          r1 = (if phase st = Playing \<or> phase st = Countdown then
                  (case map_get (players st) client of
                     None \<Rightarrow> r
                   | Some leavingPlayer \<Rightarrow>
                       (let st1 = foldl (\<lambda>s (sessionId, player).
                                           if sessionId \<noteq> client
                                           then s\<lparr> winnerId := sessionId,
                                                  winReason := ''opponent_disconnected'' \<rparr>
                                           else s) st (players st)
                        in stopGameLoop (set_state r (st1\<lparr> phase := Finished \<rparr>))))
                else r);
          r2 = set_state r1 ((room_state r1)\<lparr> players := map_delete client (players (room_state r1)) \<rparr>);
          r3 = r2\<lparr> spawnCooldowns := map_delete client (spawnCooldowns r2) \<rparr>;
          r4 = set_state r3 ((room_state r3)\<lparr> speedVotes := map_delete client (speedVotes (room_state r3)) \<rparr>)
      in recalculateGameSpeed r4)"

definition onDispose :: "BattleRoom \<Rightarrow> BattleRoom" where
  "onDispose r = stopGameLoop r"

subsection \<open>Countdown and start of the game\<close>

definition phase_payload :: "BattleRoom \<Rightarrow> Phase \<Rightarrow> PhaseChangePayload" where
  "phase_payload r ph =
     \<lparr> pc_phase = ph, pc_countdown = None, pc_winnerId = None, pc_winReason = None,
       pc_gameSpeed = gameSpeed (room_state r), pc_speedVotes = getSpeedVotesObject r \<rparr>"

definition startGame :: "real \<Rightarrow> BattleRoom \<Rightarrow> BattleRoom" where
  "startGame now r =
     (let r1 = set_state r ((room_state r)\<lparr> phase := Playing, gameTime := 0 \<rparr>);
          r2 = r1\<lparr> lastUpdateTime := now, metadata := (metadata r1)\<lparr> md_status := ''playing'' \<rparr> \<rparr>;
          r3 = emit r2 (Broadcast (PhaseChange (phase_payload r2 Playing)))
      in r3\<lparr> gameLoop := True \<rparr>)"

definition startCountdown :: "BattleRoom \<Rightarrow> BattleRoom" where
  "startCountdown r =
     (let r1 = set_state r ((room_state r)\<lparr> phase := Countdown, countdown := COUNTDOWN_SECONDS \<rparr>);
          r2 = emit r1 (Broadcast (PhaseChange
                 ((phase_payload r1 Countdown)\<lparr> pc_countdown := Some COUNTDOWN_SECONDS \<rparr>)))
      in r2\<lparr> countdownIntervals := countdownIntervals r2 + 1 \<rparr>)"

text \<open>The callback of the interval of \<open>startCountdown\<close>, run once a second while the
  interval is live.\<close>

definition countdownTick :: "real \<Rightarrow> BattleRoom \<Rightarrow> BattleRoom" where
  "countdownTick now r =
     (let r1 = set_state r ((room_state r)\<lparr> countdown := countdown (room_state r) - 1 \<rparr>);
          r2 = emit r1 (Broadcast (CountdownUpdate (countdown (room_state r1))))
      in if countdown (room_state r2) \<le> 0
         then startGame now (r2\<lparr> countdownIntervals := countdownIntervals r2 - 1 \<rparr>)
         else r2)"

definition handleReady :: "BattleRoom \<Rightarrow> string \<Rightarrow> BattleRoom" where
  "handleReady r client =
     (case map_get (players (room_state r)) client of
        None \<Rightarrow> r
      | Some player \<Rightarrow>
          (let st = room_state r;
               r1 = set_state r (st\<lparr> players := map_set client (player\<lparr> p_ready := True \<rparr>) (players st) \<rparr>);
               allReady = list_all (\<lambda>(sid, p). p_ready p) (players (room_state r1))
           in if allReady \<and> length (players (room_state r1)) = 2 \<and> phase (room_state r1) = Waiting
              then startCountdown r1 else r1))"

subsection \<open>Message handlers\<close>

text \<open>\<open>definition.spawnCooldownMs || DEFAULT_SPAWN_COOLDOWNS[definition.rarity] || 3000\<close>:
  an absent value and 0 are falsy.\<close>

definition spawn_cooldown_of :: "UnitDefinition \<Rightarrow> real" where
  "spawn_cooldown_of definition =
     (case d_spawnCooldownMs definition of
        Some c \<Rightarrow> if c \<noteq> 0 then c
                  else (case map_get DEFAULT_SPAWN_COOLDOWNS (d_rarity definition) of
                          Some c' \<Rightarrow> c' | None \<Rightarrow> 3000)
      | None \<Rightarrow> (case map_get DEFAULT_SPAWN_COOLDOWNS (d_rarity definition) of
                   Some c' \<Rightarrow> c' | None \<Rightarrow> 3000))"

text \<open>\<open>cooldowns.get(unitId) || 0\<close> for the cooldown map of the client, 0 if the client
  has none.\<close>

definition cooldown_remaining :: "BattleRoom \<Rightarrow> string \<Rightarrow> string \<Rightarrow> real" where
  "cooldown_remaining r client unitId =
     (case map_get (spawnCooldowns r) client of
        None \<Rightarrow> 0
      | Some cds \<Rightarrow> (case map_get cds unitId of None \<Rightarrow> 0 | Some remaining \<Rightarrow> remaining))"

text \<open>\<open>handleSummon\<close>.  The player object is the entry of \<open>players\<close> under the session
  id of the client; \<open>spend\<close> mutates it there before \<open>spawnUnit\<close> is called.\<close>

definition handleSummon ::
  "Catalog \<Rightarrow> string \<Rightarrow> string \<Rightarrow> BattleRoom \<Rightarrow> string \<Rightarrow> string \<Rightarrow> BattleRoom" where
  "handleSummon getUnitDefinition now rnd r client unitId =
     (if phase (room_state r) \<noteq> Playing
      then sendError r client GAME_NOT_PLAYING [Txt ''Game is not in playing phase'']
      else case map_get (players (room_state r)) client of
        None \<Rightarrow> r
      | Some player \<Rightarrow>
         (case getUnitDefinition unitId of
            None \<Rightarrow> sendError r client INVALID_UNIT [Txt ''Unknown unit: '', Txt unitId]
          | Some definition \<Rightarrow>
             if unitId \<notin> set (p_deck player)
             then sendError r client UNIT_NOT_IN_DECK [Txt ''Unit not in deck: '', Txt unitId]
             else
              (let cooldowns = map_get (spawnCooldowns r) client;
                   remaining = cooldown_remaining r client unitId
               in if cooldowns \<noteq> None \<and> remaining > 0
                  then sendError r client COOLDOWN
                         [Txt ''Spawn cooldown remaining: '', Num remaining, Txt ''ms'']
                  else if \<not> canAfford player (d_cost definition)
                  then sendError r client INSUFFICIENT_COST
                         [Txt ''Not enough cost: '', Num (p_cost player), Txt '' < '', Num (d_cost definition)]
                  else
                   (let player1 = fst (spend player (d_cost definition));
                        r1 = set_state r ((room_state r)\<lparr> players :=
                               map_set client player1 (players (room_state r)) \<rparr>);
                        (cs2, instanceId) = spawnUnit getUnitDefinition now rnd (combatSystem r1) player1 unitId;
                        r2 = r1\<lparr> combatSystem := cs2 \<rparr>
                    in case instanceId of
                         None \<Rightarrow> sendError r2 client SPAWN_FAILED [Txt ''Failed to spawn unit'']
                       | Some iid \<Rightarrow>
                          if iid = [] then sendError r2 client SPAWN_FAILED [Txt ''Failed to spawn unit'']
                          else
                           (let r3 = (case cooldowns of
                                        None \<Rightarrow> r2
                                      | Some cds \<Rightarrow>
                                          r2\<lparr> spawnCooldowns :=
                                                map_set client (map_set unitId (spawn_cooldown_of definition) cds)
                                                  (spawnCooldowns r2) \<rparr>)
                            in case map_get (units (room_state r3)) iid of
                                 None \<Rightarrow> r3
                               | Some unit \<Rightarrow> emit r3 (Broadcast (UnitSpawned unit)))))))"

definition handleUpgradeCost :: "BattleRoom \<Rightarrow> string \<Rightarrow> BattleRoom" where
  "handleUpgradeCost r client =
     (if phase (room_state r) \<noteq> Playing
      then sendError r client GAME_NOT_PLAYING [Txt ''Game is not in playing phase'']
      else case map_get (players (room_state r)) client of
        None \<Rightarrow> r
      | Some player \<Rightarrow>
          if \<not> canUpgrade player
          then sendError r client CANNOT_UPGRADE
                 [Txt ''Cannot upgrade: cost='', Num (p_cost player), Txt '', needed='',
                  (case getUpgradeCost player of None \<Rightarrow> Null | Some c \<Rightarrow> Num c)]
          else set_state r ((room_state r)\<lparr> players :=
                 map_set client (fst (upgradeMax player)) (players (room_state r)) \<rparr>))"

text \<open>\<open>handleSpeedVote\<close>; \<open>enabled\<close> is \<open>message?.enabled === true\<close>.\<close>

definition handleSpeedVote :: "BattleRoom \<Rightarrow> string \<Rightarrow> bool \<Rightarrow> BattleRoom" where
  "handleSpeedVote r client enabled =
     (if map_get (players (room_state r)) client = None then r
      else recalculateGameSpeed
             (set_state r ((room_state r)\<lparr> speedVotes :=
                map_set client enabled (speedVotes (room_state r)) \<rparr>)))"

subsection \<open>The tick\<close>

text \<open>\<open>saveBattleResult\<close> up to its only \<open>await\<close>: the record handed to the sink, if the
  room holds two players.\<close>

definition saveBattleResult :: "BattleRoom \<Rightarrow> BattleRoom" where
  "saveBattleResult r =
     (case players (room_state r) of
        [(session1, player1), (session2, player2)] \<Rightarrow>
          emit r (SaveBattleResult
            \<lparr> player1_id = p_odeyoId player1, player2_id = p_odeyoId player2,
              player1_name = p_displayName player1, player2_name = p_displayName player2,
              player1_deck = p_deck player1, player2_deck = p_deck player2,
              winner_player_num = (if winnerId (room_state r) = session2 then 2 else 1),
              player1_castle_hp = p_castleHp player1, player2_castle_hp = p_castleHp player2,
              player1_kills = getKillCount (combatSystem r) session1,
              player2_kills = getKillCount (combatSystem r) session2,
              battle_duration = \<lfloor>gameTime (room_state r) / 1000\<rfloor>,
              win_reason = (if winReason (room_state r) = [] then ''castle_destroyed''
                            else winReason (room_state r)) \<rparr>)
      | _ \<Rightarrow> r)"

definition unit_view :: "string \<times> UnitSchema \<Rightarrow> UnitSchema" where
  "unit_view e = snd e"

definition player_sync_view :: "string \<times> PlayerSchema \<Rightarrow> string \<times> real \<times> real \<times> int \<times> real \<times> real" where
  "player_sync_view e =
     (fst e, p_cost (snd e), p_maxCost (snd e), p_costLevel (snd e), p_castleHp (snd e),
      p_maxCastleHp (snd e))"

definition tick :: "real \<Rightarrow> BattleRoom \<Rightarrow> BattleRoom" where
  "tick now r =
     (let deltaMs = now - lastUpdateTime r;
          r1 = r\<lparr> lastUpdateTime := now \<rparr>;
          speed = (if gameSpeed (room_state r1) = 0 then 1 else gameSpeed (room_state r1));
          adjustedDelta = deltaMs * speed;
          r2 = set_state r1 ((room_state r1)\<lparr> gameTime := gameTime (room_state r1) + adjustedDelta \<rparr>);
          r3 = set_state r2 ((room_state r2)\<lparr> players :=
                 map (\<lambda>(sid, player). (sid, ServerCostSystem_update player adjustedDelta))
                   (players (room_state r2)) \<rparr>);
          r4 = r3\<lparr> spawnCooldowns :=
                 map (\<lambda>(sid, cooldowns).
                        (sid, map (\<lambda>(unitId, remaining). (unitId, max 0 (remaining - adjustedDelta))) cooldowns))
                   (spawnCooldowns r3) \<rparr>;
          r5 = r4\<lparr> combatSystem := ServerCombatSystem_update (combatSystem r4) adjustedDelta \<rparr>;
          r6 = emit r5 (Broadcast (UnitsSync (map unit_view (units (room_state r5)))));
          r7 = emit r6 (Broadcast (PlayersSync (map player_sync_view (players (room_state r6)))))
      in if phase (room_state r7) = Finished then
           (let r8 = saveBattleResult (stopGameLoop r7)
            in emit r8 (Broadcast (PhaseChange
                 ((phase_payload r8 Finished)\<lparr> pc_winnerId := Some (winnerId (room_state r8)),
                                                pc_winReason := Some (winReason (room_state r8)) \<rparr>))))
         else r7)"

subsection \<open>The room as a serial machine\<close>

text \<open>Everything that can happen to a room, one callback at a time: the lifecycle hooks,
  the client messages, a firing of the countdown interval and a firing of the game
  loop.  A timer fires only while it is live.\<close>

datatype Input =
  Join string JoinOptions real
  | Leave string
  | Ready string
  | Summon string string string string
  | UpgradeCost string
  | SpeedVote string bool
  | CountdownFire real
  | GameLoopFire real

fun step :: "Catalog \<Rightarrow> BattleRoom \<Rightarrow> Input \<Rightarrow> BattleRoom" where
  "step cat r (Join client options now) = onJoin cat now r client options"
| "step cat r (Leave client) = onLeave r client"
| "step cat r (Ready client) = handleReady r client"
| "step cat r (Summon client unitId now rnd) = handleSummon cat now rnd r client unitId"
| "step cat r (UpgradeCost client) = handleUpgradeCost r client"
| "step cat r (SpeedVote client enabled) = handleSpeedVote r client enabled"
| "step cat r (CountdownFire now) = (if countdownIntervals r > 0 then countdownTick now r else r)"
| "step cat r (GameLoopFire now) = (if gameLoop r then tick now r else r)"

definition run :: "Catalog \<Rightarrow> BattleRoom \<Rightarrow> Input list \<Rightarrow> BattleRoom" where
  "run cat r inputs = foldl (step cat) r inputs"

section \<open>Notions used to state the properties\<close>

text \<open>The condition \<open>target && target.state !== 'DIE'\<close> of \<open>dealDamage\<close>.\<close>

definition hasLiveTarget :: "ServerCombatSystem \<Rightarrow> ServerUnit \<Rightarrow> bool" where
  "hasLiveTarget cs unit =
     (case lookupTarget cs unit of None \<Rightarrow> False | Some t \<Rightarrow> u_state t \<noteq> DIE)"

text \<open>Reading the log of effects: the broadcast of \<open>phase_change\<close> with phase
  \<open>playing\<close>, the values carried by the \<open>countdown_update\<close> broadcasts in order, and the part
  of a log before the first \<open>phase_change\<close> to \<open>playing\<close>.\<close>

fun is_playing_change :: "Effect \<Rightarrow> bool" where
  "is_playing_change (Broadcast (PhaseChange pl)) = (pc_phase pl = Playing)"
| "is_playing_change _ = False"

fun countdown_updates :: "Effect list \<Rightarrow> int list" where
  "countdown_updates [] = []"
| "countdown_updates (Broadcast (CountdownUpdate n) # es) = n # countdown_updates es"
| "countdown_updates (e # es) = countdown_updates es"

definition before_playing :: "Effect list \<Rightarrow> Effect list" where
  "before_playing es = takeWhile (\<lambda>e. \<not> is_playing_change e) es"

text \<open>What a room \<open>r'\<close> has sent since it was the room \<open>r\<close>.\<close>

definition new_effects :: "BattleRoom \<Rightarrow> BattleRoom \<Rightarrow> Effect list" where
  "new_effects r r' = drop (length (effects r)) (effects r')"

text \<open>A log without \<open>countdown_update\<close> and without \<open>phase_change\<close> to \<open>playing\<close>.\<close>

definition quiet :: "Effect list \<Rightarrow> bool" where
  "quiet es = (countdown_updates es = [] \<and> \<not> list_ex is_playing_change es)"

text \<open>\<open>r'\<close> continues \<open>r\<close> without touching the countdown: same counter, same live
  countdown intervals, no game loop started, the phase kept or finished, and only a
  quiet log appended.\<close>

definition quiet_ext :: "BattleRoom \<Rightarrow> BattleRoom \<Rightarrow> bool" where
  "quiet_ext r r' =
     (countdown (room_state r') = countdown (room_state r) \<and>
      countdownIntervals r' = countdownIntervals r \<and>
      (gameLoop r' \<longrightarrow> gameLoop r) \<and>
      (phase (room_state r') = phase (room_state r) \<or> phase (room_state r') = Finished) \<and>
      (\<exists>new. effects r' = effects r @ new \<and> quiet new))"

text \<open>The log of \<open>r'\<close> extends the log of \<open>r\<close>.\<close>

definition grows :: "BattleRoom \<Rightarrow> BattleRoom \<Rightarrow> bool" where
  "grows r r' = (\<exists>new. effects r' = effects r @ new)"

text \<open>A room whose countdown stands at \<open>n\<close>: one live countdown interval, no game loop,
  phase countdown or (after a disconnect) finished.\<close>

definition counting :: "BattleRoom \<Rightarrow> int \<Rightarrow> bool" where
  "counting r n =
     (countdown (room_state r) = n \<and> countdownIntervals r = 1 \<and> \<not> gameLoop r \<and>
      (phase (room_state r) = Countdown \<or> phase (room_state r) = Finished))"

text \<open>The values \<open>n - 1, \<dots>, 1, 0\<close>.\<close>

definition down_from :: "int \<Rightarrow> int list" where
  "down_from n = rev (map int [0..<nat n])"

text \<open>A unit inside the lane whose definition has a non-negative speed and knockback,
  and a combat system all of whose units are so, on a stage that reaches the castle
  of player2.\<close>

definition in_lane :: "real \<Rightarrow> ServerUnit \<Rightarrow> bool" where
  "in_lane sl u = (80 \<le> u_x u \<and> u_x u \<le> sl - 30 \<and>
                   0 \<le> d_speed (u_definition u) \<and> 0 \<le> d_knockback (u_definition u))"

definition lane_inv :: "ServerCombatSystem \<Rightarrow> bool" where
  "lane_inv cs = (1120 \<le> stageLength (state cs) \<and>
                  list_all (\<lambda>e. in_lane (stageLength (state cs)) (snd e)) (serverUnits cs))"

text \<open>An entry of \<open>serverUnits\<close> stored under its own instance id and not its own
  target, and a combat system all of whose entries are so, with keys that are
  distinct as the keys of a Map are.\<close>

definition own_key :: "string \<times> ServerUnit \<Rightarrow> bool" where
  "own_key e = (u_instanceId (snd e) = fst e \<and> u_targetId (snd e) \<noteq> Some (fst e))"

definition well_targeted :: "ServerCombatSystem \<Rightarrow> bool" where
  "well_targeted cs = (distinct (map fst (serverUnits cs)) \<and> list_all own_key (serverUnits cs))"

text \<open>A finished room with no timer left.\<close>

definition over :: "BattleRoom \<Rightarrow> bool" where
  "over r = (phase (room_state r) = Finished \<and> countdownIntervals r = 0 \<and> \<not> gameLoop r)"



section \<open>Concrete catalog, units and rooms\<close>

text \<open>The inputs at which the theorems below are instantiated and the code is run.\<close>

definition ex_definition :: UnitDefinition where
  "ex_definition =
     \<lparr> d_id = ''unitA'', d_name = ''Unit A'', d_rarity = ''N'', d_cost = 100, d_maxHp = 100,
       d_speed = 200, d_attackDamage = 50, d_attackRange = 50, d_attackCooldownMs = 500,
       d_attackWindupMs = 100, d_spawnCooldownMs = None, d_knockback = 20, d_isBoss = False,
       d_scale = None \<rparr>"

definition ex_catalog :: Catalog where
  "ex_catalog unitId = (if unitId = ''unitA'' then Some ex_definition else None)"

definition ex_unit ::
  "string \<Rightarrow> Side \<Rightarrow> real \<Rightarrow> UnitState \<Rightarrow> real \<Rightarrow> string option \<Rightarrow> real \<Rightarrow> ServerUnit" where
  "ex_unit iid sd pos st timer tgt hp =
     \<lparr> u_instanceId = iid, u_definitionId = ''unitA'', u_definition = ex_definition,
       u_side = sd, u_x = pos, u_hp = hp, u_maxHp = 100, u_state = st, u_stateTimer = timer,
       u_targetId = tgt, u_damageAccumulated = 0, u_width = 60 \<rparr>"

definition ex_player :: "string \<Rightarrow> real \<Rightarrow> PlayerSchema" where
  "ex_player sid c =
     (initialize (new_PlayerSchema\<lparr> p_sessionId := sid, p_odeyoId := sid, p_displayName := sid,
                                    p_deck := [''unitA''] \<rparr>))\<lparr> p_cost := c \<rparr>"

definition ex_combat :: "(string \<times> ServerUnit) list \<Rightarrow> ServerCombatSystem" where
  "ex_combat us =
     \<lparr> state = new_BattleState\<lparr> phase := Playing,
                                players := [(''a'', ex_player ''a'' 200), (''b'', ex_player ''b'' 200)] \<rparr>,
       serverUnits = us, killCounts = [] \<rparr>"

text \<open>A room in the playing phase with the given players and no units.\<close>

definition ex_room :: "(string \<times> PlayerSchema) list \<Rightarrow> BattleRoom" where
  "ex_room ps =
     \<lparr> combatSystem = \<lparr> state = new_BattleState\<lparr> phase := Playing, players := ps \<rparr>,
                        serverUnits = [], killCounts = [] \<rparr>,
       gameLoop = True, countdownIntervals = 0, lastUpdateTime = 0,
       spawnCooldowns = map (\<lambda>e. (fst e, [])) ps,
       metadata = \<lparr> md_status = ''playing'', md_hostName = ''a'', md_hostDeckPreview = [''unitA''],
                    md_createdAt = 0 \<rparr>,
       locked = True, effects = [] \<rparr>"

definition ex_options :: JoinOptions where
  "ex_options = \<lparr> o_odeyoId = None, o_displayName = None, o_deck = Some [''unitA''] \<rparr>"

text \<open>Two players join a fresh room and both declare ready.\<close>

definition ex_ready_room :: BattleRoom where
  "ex_ready_room =
     run ex_catalog (onCreate 0)
       [Join ''a'' ex_options 0, Join ''b'' ex_options 0, Ready ''a'', Ready ''b'']"

text \<open>The same room with one player left to declare ready.\<close>

definition ex_one_ready_room :: BattleRoom where
  "ex_one_ready_room =
     run ex_catalog (onCreate 0) [Join ''a'' ex_options 0, Join ''b'' ex_options 0, Ready ''a'']"

text \<open>A walking unit whose target is dead and in range, far from the enemy castle.\<close>

definition ex_walker :: ServerUnit where
  "ex_walker = ex_unit ''p1'' Player1 500 WALK 0 (Some ''p2'') 100"

definition ex_walk_dead_target :: ServerCombatSystem where
  "ex_walk_dead_target =
     ex_combat [(''p1'', ex_walker), (''p2'', ex_unit ''p2'' Player2 580 DIE 0 None 0)]"

text \<open>Before a tick: \<open>pA\<close> is 40 ms from the end of its windup on \<open>pT\<close>, which has 30 hp
  left; \<open>pB\<close>, later in the map, walks with the same live target in range.\<close>

definition ex_tick_kill :: ServerCombatSystem where
  "ex_tick_kill =
     ex_combat [(''pA'', ex_unit ''pA'' Player1 520 ATTACK_WINDUP 60 (Some ''pT'') 100),
                (''pT'', ex_unit ''pT'' Player2 580 WALK 0 None 30),
                (''pB'', ex_unit ''pB'' Player1 470 WALK 0 (Some ''pT'') 100)]"

text \<open>A windup that completes on a live target, and one that completes with no target
  next to the enemy castle.\<close>

definition ex_attacker :: ServerUnit where
  "ex_attacker = ex_unit ''p1'' Player1 500 ATTACK_WINDUP 100 (Some ''p2'') 100"

definition ex_victim :: ServerUnit where
  "ex_victim = ex_unit ''p2'' Player2 580 WALK 0 None 30"

definition ex_windup_unit :: ServerCombatSystem where
  "ex_windup_unit = ex_combat [(''p1'', ex_attacker), (''p2'', ex_victim)]"

definition ex_sieger :: ServerUnit where
  "ex_sieger = ex_unit ''p1'' Player1 1060 ATTACK_WINDUP 100 None 100"

definition ex_windup_castle :: ServerCombatSystem where
  "ex_windup_castle = ex_combat [(''p1'', ex_sieger)]"

text \<open>Both castles at 0 in the playing phase.\<close>

definition ex_both_destroyed :: ServerCombatSystem where
  "ex_both_destroyed =
     \<lparr> state = new_BattleState\<lparr> phase := Playing,
                  players := [(''a'', (ex_player ''a'' 200)\<lparr> p_castleHp := 0 \<rparr>),
                              (''b'', (ex_player ''b'' 200)\<lparr> p_castleHp := 0 \<rparr>)] \<rparr>,
       serverUnits = [], killCounts = [] \<rparr>"

text \<open>A room in the playing phase with two players, the first with a cost of 50.\<close>

definition ex_poor_room :: BattleRoom where
  "ex_poor_room = ex_room [(''a'', ex_player ''a'' 50), (''b'', ex_player ''b'' 200)]"



text \<open>A unit at full health that a hit of 50 does not kill.\<close>

definition ex_healthy :: ServerUnit where
  "ex_healthy = ex_unit ''p2'' Player2 580 WALK 0 None 100"

section \<open>Properties of the cost system\<close>

lemma level_cases:
  "1 \<le> (l::int) \<Longrightarrow> l \<le> 8 \<Longrightarrow>
   l = 1 \<or> l = 2 \<or> l = 3 \<or> l = 4 \<or> l = 5 \<or> l = 6 \<or> l = 7 \<or> l = 8"
  by arith

lemma inv_initialize: "cost_inv (initialize q)"
  by (simp add: cost_inv_def initialize_def INITIAL_COST_def maxLevels_def js_index_def)

lemma regen_nonneg:
  "0 \<le> (case js_index regenRates i of Some r \<Rightarrow> r | None \<Rightarrow> regenRates ! 0)"
  by (auto simp: js_index_def regenRates_def nth_Cons' split: option.splits)

lemma inv_update:
  assumes "cost_inv p" and "0 \<le> d"
  shows "cost_inv (ServerCostSystem_update p d)"
proof -
  let ?r = "case js_index regenRates (p_costLevel p - 1) of Some r \<Rightarrow> r | None \<Rightarrow> regenRates ! 0"
  have "0 \<le> ?r * (d / 1000)"
    using regen_nonneg [of "p_costLevel p - 1"] assms(2) by simp
  then show ?thesis
    using assms(1) by (simp add: cost_inv_def ServerCostSystem_update_def Let_def min_def)
qed

lemma inv_spend: "cost_inv p \<Longrightarrow> 0 \<le> a \<Longrightarrow> cost_inv (fst (spend p a))"
  by (simp add: cost_inv_def spend_def)

lemma inv_upgradeMax:
  assumes "cost_inv p"
  shows "cost_inv (fst (upgradeMax p))"
proof -
  from assms have "1 \<le> p_costLevel p" and "p_costLevel p \<le> 8"
    by (simp_all add: cost_inv_def)
  then have "p_costLevel p = 1 \<or> p_costLevel p = 2 \<or> p_costLevel p = 3 \<or> p_costLevel p = 4
      \<or> p_costLevel p = 5 \<or> p_costLevel p = 6 \<or> p_costLevel p = 7 \<or> p_costLevel p = 8"
    by (rule level_cases)
  then show ?thesis
    using assms
    by (elim disjE)
       (simp_all add: cost_inv_def upgradeMax_def Let_def js_index_def maxLevels_def upgradeCosts_def)
qed

lemma upgradeMax_success:
  assumes "snd (upgradeMax p)"
  shows "(\<exists>uc. js_index upgradeCosts (p_costLevel p - 1) = Some uc \<and>
               p_cost (fst (upgradeMax p)) = p_cost p - uc) \<and>
         p_costLevel (fst (upgradeMax p)) = p_costLevel p + 1 \<and>
         js_index maxLevels (p_costLevel (fst (upgradeMax p)) - 1)
           = Some (p_maxCost (fst (upgradeMax p)))"
  using assms
  by (auto simp: upgradeMax_def Let_def js_index_def maxLevels_def upgradeCosts_def
           split: if_splits option.splits)

text \<open>
  Claim C7.  Every operation of the cost system keeps the player invariant
  \<open>0 \<le> cost \<le> maxCost\<close>, \<open>1 \<le> costLevel \<le> 8\<close>, \<open>maxCost = maxLevels[costLevel - 1]\<close>:
  \<open>initialize\<close> establishes it, \<open>update\<close> keeps it for every \<open>deltaMs \<ge> 0\<close>, \<open>spend\<close>
  for every amount \<open>\<ge> 0\<close>, and \<open>upgradeMax\<close> always.  When \<open>upgradeMax\<close> succeeds it
  subtracts \<open>upgradeCosts[oldLevel - 1]\<close>, increments the level by one and sets
  \<open>maxCost\<close> to \<open>maxLevels[newLevel - 1]\<close>.
\<close>

theorem cost_system_preserves_invariant:
  "cost_inv (initialize q) \<and>
   (cost_inv p \<longrightarrow> 0 \<le> deltaMs \<longrightarrow> cost_inv (ServerCostSystem_update p deltaMs)) \<and>
   (cost_inv p \<longrightarrow> 0 \<le> amount \<longrightarrow> cost_inv (fst (spend p amount))) \<and>
   (cost_inv p \<longrightarrow> cost_inv (fst (upgradeMax p))) \<and>
   (snd (upgradeMax p) \<longrightarrow>
      (\<exists>uc. js_index upgradeCosts (p_costLevel p - 1) = Some uc \<and>
            p_cost (fst (upgradeMax p)) = p_cost p - uc) \<and>
      p_costLevel (fst (upgradeMax p)) = p_costLevel p + 1 \<and>
      js_index maxLevels (p_costLevel (fst (upgradeMax p)) - 1)
        = Some (p_maxCost (fst (upgradeMax p))))"
  using inv_initialize inv_update inv_spend inv_upgradeMax upgradeMax_success by blast

theorem cost_system_preserves_invariant_witness:
  "cost_inv (new_PlayerSchema\<lparr> p_cost := 600 \<rparr>) \<and> (0::real) \<le> 50 \<and> (0::real) \<le> 100 \<and>
   snd (upgradeMax (new_PlayerSchema\<lparr> p_cost := 600 \<rparr>)) \<and>
   cost_inv (initialize new_PlayerSchema) \<and>
   cost_inv (ServerCostSystem_update (new_PlayerSchema\<lparr> p_cost := 600 \<rparr>) 50) \<and>
   cost_inv (fst (spend (new_PlayerSchema\<lparr> p_cost := 600 \<rparr>) 100)) \<and>
   cost_inv (fst (upgradeMax (new_PlayerSchema\<lparr> p_cost := 600 \<rparr>))) \<and>
   p_costLevel (fst (upgradeMax (new_PlayerSchema\<lparr> p_cost := 600 \<rparr>))) = 2 \<and>
   js_index maxLevels (p_costLevel (fst (upgradeMax (new_PlayerSchema\<lparr> p_cost := 600 \<rparr>))) - 1)
     = Some (p_maxCost (fst (upgradeMax (new_PlayerSchema\<lparr> p_cost := 600 \<rparr>))))"
proof -
  let ?p = "new_PlayerSchema\<lparr> p_cost := 600 \<rparr>"
  have inv: "cost_inv ?p"
    by (simp add: cost_inv_def new_PlayerSchema_def js_index_def maxLevels_def)
  have ok: "snd (upgradeMax ?p)"
    by (simp add: upgradeMax_def new_PlayerSchema_def js_index_def maxLevels_def upgradeCosts_def)
  have lvl: "p_costLevel ?p + 1 = 2"
    by (simp add: new_PlayerSchema_def)
  note inst = cost_system_preserves_invariant [of new_PlayerSchema ?p 50 100]
  from inst inv have "cost_inv (ServerCostSystem_update ?p 50)" by simp
  moreover from inst inv have "cost_inv (fst (spend ?p 100))" by simp
  moreover from inst inv have "cost_inv (fst (upgradeMax ?p))" by simp
  moreover from inst have "cost_inv (initialize new_PlayerSchema)" by simp
  moreover from inst ok have "p_costLevel (fst (upgradeMax ?p)) = p_costLevel ?p + 1" by blast
  then have "p_costLevel (fst (upgradeMax ?p)) = 2" using lvl by simp
  moreover from inst ok have "js_index maxLevels (p_costLevel (fst (upgradeMax ?p)) - 1)
     = Some (p_maxCost (fst (upgradeMax ?p)))" by blast
  ultimately show ?thesis using inv ok by simp
qed

section \<open>Properties of the combat system\<close>

lemma map_get_map_set:
  "map_get (map_set k v m) k' = (if k' = k then Some v else map_get m k')"
  by (induction m) (auto simp: map_get_def)

subsection \<open>Win condition\<close>

lemma getPlayerSide_two:
  "k1 \<noteq> k2 \<Longrightarrow> players st = [(k1, p1), (k2, p2)] \<Longrightarrow>
   getPlayerSide st k1 = Some Player1 \<and> getPlayerSide st k2 = Some Player2"
  by (simp add: getPlayerSide_def Let_def)

text \<open>
  Claim C9.  In the playing phase with two players, if at the win check both castles
  are at or below 0, the room finishes with \<open>winnerId\<close> the session id of player2 (the
  second entry of the players map) and \<open>winReason\<close> \<open>castle_destroyed\<close>: the branch for
  player1's castle is tested first.
\<close>

theorem simultaneous_castle_destruction_player2_wins:
  assumes "phase (state cs) = Playing"
    and "players (state cs) = [(k1, p1), (k2, p2)]"
    and "k1 \<noteq> k2"
    and "p_castleHp p1 \<le> 0" and "p_castleHp p2 \<le> 0"
  shows "state (checkWinCondition cs) =
           (state cs)\<lparr> phase := Finished, winnerId := p_sessionId p2,
                       winReason := ''castle_destroyed'' \<rparr>"
  using assms getPlayerSide_two [OF assms(3) assms(2)]
  by (simp add: checkWinCondition_def)

theorem simultaneous_castle_destruction_player2_wins_witness:
  "phase (state ex_both_destroyed) = Playing \<and>
   players (state ex_both_destroyed)
     = [(''a'', (ex_player ''a'' 200)\<lparr> p_castleHp := 0 \<rparr>),
        (''b'', (ex_player ''b'' 200)\<lparr> p_castleHp := 0 \<rparr>)] \<and>
   ''a'' \<noteq> ''b'' \<and>
   p_castleHp ((ex_player ''a'' 200)\<lparr> p_castleHp := 0 \<rparr>) \<le> 0 \<and>
   p_castleHp ((ex_player ''b'' 200)\<lparr> p_castleHp := 0 \<rparr>) \<le> 0 \<and>
   phase (state (checkWinCondition ex_both_destroyed)) = Finished \<and>
   winnerId (state (checkWinCondition ex_both_destroyed)) = ''b'' \<and>
   winReason (state (checkWinCondition ex_both_destroyed)) = ''castle_destroyed''"
proof -
  have a: "phase (state ex_both_destroyed) = Playing"
    by code_simp
  have b: "players (state ex_both_destroyed)
             = [(''a'', (ex_player ''a'' 200)\<lparr> p_castleHp := 0 \<rparr>),
                (''b'', (ex_player ''b'' 200)\<lparr> p_castleHp := 0 \<rparr>)]"
    by code_simp
  have c: "''a'' \<noteq> ''b''" by simp
  have d: "p_castleHp ((ex_player ''a'' 200)\<lparr> p_castleHp := 0 \<rparr>) \<le> 0" by simp
  have e: "p_castleHp ((ex_player ''b'' 200)\<lparr> p_castleHp := 0 \<rparr>) \<le> 0" by simp
  have f: "p_sessionId ((ex_player ''b'' 200)\<lparr> p_castleHp := 0 \<rparr>) = ''b''"
    by code_simp
  note inst = simultaneous_castle_destruction_player2_wins [OF a b c d e]
  show ?thesis using a b c d e unfolding inst f by simp
qed

subsection \<open>Damage on windup completion\<close>

lemma applyDamage_hp:
  "u_hp (fst (applyDamage cs t damage kb sd)) = max 0 (u_hp t - damage)"
  by (simp add: applyDamage_def Let_def setUnitState_def max_def)

lemma applyDamage_death:
  assumes "u_hp t - damage \<le> 0"
  shows "u_state (fst (applyDamage cs t damage kb (Some sd))) = DIE"
    and "getSessionIdBySide (state cs) sd = Some sid \<Longrightarrow> sid \<noteq> [] \<Longrightarrow>
         map_get (snd (applyDamage cs t damage kb (Some sd))) sid
           = Some (getKillCount cs sid + 1)"
  using assms
  by (simp_all add: applyDamage_def Let_def setUnitState_def map_get_map_set getKillCount_def)

lemma dealDamage_live:
  assumes "lookupTarget cs a = Some t" and "u_state t \<noteq> DIE" and "u_targetId a = Some tid"
  shows "dealDamage cs a =
           cs\<lparr> serverUnits :=
                  map_set tid (fst (applyDamage cs t (d_attackDamage (u_definition a))
                                      (d_knockback (u_definition a)) (Some (u_side a))))
                    (serverUnits cs),
                killCounts := snd (applyDamage cs t (d_attackDamage (u_definition a))
                                     (d_knockback (u_definition a)) (Some (u_side a))) \<rparr>"
  using assms by (simp add: dealDamage_def Let_def split_beta)

lemma dealDamage_no_live:
  assumes "\<not> hasLiveTarget cs a"
  shows "serverUnits (dealDamage cs a) = serverUnits cs"
    and "killCounts (dealDamage cs a) = killCounts cs"
    and "players (state (dealDamage cs a)) =
           (case getPlayerBySide (state cs) (enemy_of (u_side a)) of
              None \<Rightarrow> players (state cs)
            | Some ep \<Rightarrow>
                if isInRangeOfEnemyCastle a
                then map_set (the (getSessionIdBySide (state cs) (enemy_of (u_side a))))
                       (ep\<lparr> p_castleHp := max 0 (p_castleHp ep - d_attackDamage (u_definition a)) \<rparr>)
                       (players (state cs))
                else players (state cs))"
  using assms
  by (auto simp: dealDamage_def hasLiveTarget_def Let_def max_def split: option.splits)

lemma handleAttackWindup_no_live:
  assumes "map_get (serverUnits cs) k = Some a"
    and "d_attackWindupMs (u_definition a) \<le> u_stateTimer a"
    and "\<not> hasLiveTarget cs a"
  shows "handleAttackWindup cs k =
           (dealDamage cs a)\<lparr> serverUnits :=
              map_set k (setUnitState a ATTACK_COOLDOWN) (serverUnits cs) \<rparr>"
  using assms dealDamage_no_live(1) [OF assms(3)]
  by (simp add: handleAttackWindup_def Let_def)

text \<open>
  Claim C1.  Let the unit stored under \<open>k\<close> complete its windup.  If its target id refers
  to another unit that is present and not in state DIE, the target's hp becomes
  \<open>max 0 (hp - attackDamage)\<close>; if that is 0 the target is in state DIE and the kill
  counter of the attacker's session is one higher; and no player (hence no castle hp)
  changes.  If it has no such target, no other unit changes and its own hp is
  unchanged; the enemy player's castle hp becomes \<open>max 0 (castleHp - attackDamage)\<close> if
  the attacker is in range of the enemy castle, and no player changes otherwise.  In
  every case either all players or the hp of all units are as before: never both a
  unit and a castle are damaged.
\<close>

theorem windup_completion_damages_unit_or_castle:
  assumes unit: "map_get (serverUnits cs) k = Some a"
    and complete: "d_attackWindupMs (u_definition a) \<le> u_stateTimer a"
  shows
    "(\<forall>tid t. u_targetId a = Some tid \<and> tid \<noteq> k \<and> lookupTarget cs a = Some t \<and> u_state t \<noteq> DIE \<longrightarrow>
        (\<exists>t'. map_get (serverUnits (handleAttackWindup cs k)) tid = Some t' \<and>
              u_hp t' = max 0 (u_hp t - d_attackDamage (u_definition a)) \<and>
              (u_hp t - d_attackDamage (u_definition a) \<le> 0 \<longrightarrow>
                 u_state t' = DIE \<and>
                 (\<forall>sid. getSessionIdBySide (state cs) (u_side a) = Some sid \<and> sid \<noteq> [] \<longrightarrow>
                    getKillCount (handleAttackWindup cs k) sid = getKillCount cs sid + 1))) \<and>
        players (state (handleAttackWindup cs k)) = players (state cs)) \<and>
     (\<not> hasLiveTarget cs a \<longrightarrow>
        (\<forall>k'. k' \<noteq> k \<longrightarrow>
           map_get (serverUnits (handleAttackWindup cs k)) k' = map_get (serverUnits cs) k') \<and>
        map_option u_hp (map_get (serverUnits (handleAttackWindup cs k)) k) = Some (u_hp a) \<and>
        (\<forall>ep sid. getPlayerBySide (state cs) (enemy_of (u_side a)) = Some ep \<and>
                  getSessionIdBySide (state cs) (enemy_of (u_side a)) = Some sid \<longrightarrow>
           players (state (handleAttackWindup cs k)) =
             (if isInRangeOfEnemyCastle a
              then map_set sid
                     (ep\<lparr> p_castleHp := max 0 (p_castleHp ep - d_attackDamage (u_definition a)) \<rparr>)
                     (players (state cs))
              else players (state cs)))) \<and>
     (players (state (handleAttackWindup cs k)) = players (state cs) \<or>
      (\<forall>k'. map_option u_hp (map_get (serverUnits (handleAttackWindup cs k)) k')
              = map_option u_hp (map_get (serverUnits cs) k')))"
proof (intro conjI allI impI)
  fix tid t
  assume "u_targetId a = Some tid \<and> tid \<noteq> k \<and> lookupTarget cs a = Some t \<and> u_state t \<noteq> DIE"
  then have h: "u_targetId a = Some tid" "tid \<noteq> k" "k \<noteq> tid" "lookupTarget cs a = Some t"
    "u_state t \<noteq> DIE"
    by auto
  let ?ad = "applyDamage cs t (d_attackDamage (u_definition a)) (d_knockback (u_definition a))
               (Some (u_side a))"
  from h have dd: "dealDamage cs a =
      cs\<lparr> serverUnits := map_set tid (fst ?ad) (serverUnits cs), killCounts := snd ?ad \<rparr>"
    by (simp add: dealDamage_live)
  have haw: "handleAttackWindup cs k =
               (dealDamage cs a)\<lparr> serverUnits := map_set k (setUnitState a ATTACK_COOLDOWN)
                                     (serverUnits (dealDamage cs a)) \<rparr>"
    using unit complete h by (simp add: handleAttackWindup_def Let_def dd map_get_map_set)
  have tgt: "map_get (serverUnits (handleAttackWindup cs k)) tid = Some (fst ?ad)"
    using h by (simp add: haw dd map_get_map_set)
  have kc: "killCounts (handleAttackWindup cs k) = snd ?ad"
    and st: "state (handleAttackWindup cs k) = state cs"
    by (simp_all add: haw dd)
  show "\<exists>t'. map_get (serverUnits (handleAttackWindup cs k)) tid = Some t' \<and>
              u_hp t' = max 0 (u_hp t - d_attackDamage (u_definition a)) \<and>
              (u_hp t - d_attackDamage (u_definition a) \<le> 0 \<longrightarrow>
                 u_state t' = DIE \<and>
                 (\<forall>sid. getSessionIdBySide (state cs) (u_side a) = Some sid \<and> sid \<noteq> [] \<longrightarrow>
                    getKillCount (handleAttackWindup cs k) sid = getKillCount cs sid + 1))"
    using tgt applyDamage_hp [of cs t] applyDamage_death [of t "d_attackDamage (u_definition a)" cs]
    by (auto simp: getKillCount_def kc)
  show "players (state (handleAttackWindup cs k)) = players (state cs)"
    by (simp add: st)
next
  fix k'
  assume nl: "\<not> hasLiveTarget cs a" and "k' \<noteq> k"
  then show "map_get (serverUnits (handleAttackWindup cs k)) k' = map_get (serverUnits cs) k'"
    by (simp add: handleAttackWindup_no_live [OF unit complete nl] map_get_map_set)
next
  assume nl: "\<not> hasLiveTarget cs a"
  show "map_option u_hp (map_get (serverUnits (handleAttackWindup cs k)) k) = Some (u_hp a)"
    by (simp add: handleAttackWindup_no_live [OF unit complete nl] map_get_map_set setUnitState_def)
next
  fix ep sid
  assume nl: "\<not> hasLiveTarget cs a"
    and e: "getPlayerBySide (state cs) (enemy_of (u_side a)) = Some ep \<and>
            getSessionIdBySide (state cs) (enemy_of (u_side a)) = Some sid"
  show "players (state (handleAttackWindup cs k)) =
             (if isInRangeOfEnemyCastle a
              then map_set sid
                     (ep\<lparr> p_castleHp := max 0 (p_castleHp ep - d_attackDamage (u_definition a)) \<rparr>)
                     (players (state cs))
              else players (state cs))"
    using dealDamage_no_live(3) [OF nl] e
    by (simp add: handleAttackWindup_no_live [OF unit complete nl])
next
  show "players (state (handleAttackWindup cs k)) = players (state cs) \<or>
      (\<forall>k'. map_option u_hp (map_get (serverUnits (handleAttackWindup cs k)) k')
              = map_option u_hp (map_get (serverUnits cs) k'))"
  proof (cases "hasLiveTarget cs a")
    case True
    then obtain t tid where t: "lookupTarget cs a = Some t" "u_state t \<noteq> DIE" "u_targetId a = Some tid"
      by (auto simp: hasLiveTarget_def lookupTarget_def split: option.splits)
    have "state (dealDamage cs a) = state cs"
      by (simp add: dealDamage_live [OF t])
    then have "state (handleAttackWindup cs k) = state cs"
      using unit complete by (simp add: handleAttackWindup_def Let_def split: option.splits)
    then show ?thesis by simp
  next
    case False
    have "\<forall>k'. map_option u_hp (map_get (serverUnits (handleAttackWindup cs k)) k')
              = map_option u_hp (map_get (serverUnits cs) k')"
      using unit
      by (simp add: handleAttackWindup_no_live [OF unit complete False] map_get_map_set setUnitState_def)
    then show ?thesis by simp
  qed
qed

theorem windup_completion_damages_unit_or_castle_witness:
  "map_get (serverUnits ex_windup_unit) ''p1'' = Some ex_attacker \<and>
   d_attackWindupMs (u_definition ex_attacker) \<le> u_stateTimer ex_attacker \<and>
   u_targetId ex_attacker = Some ''p2'' \<and> ''p2'' \<noteq> ''p1'' \<and>
   lookupTarget ex_windup_unit ex_attacker = Some ex_victim \<and> u_state ex_victim \<noteq> DIE \<and>
   u_hp ex_victim - d_attackDamage (u_definition ex_attacker) \<le> 0 \<and>
   getSessionIdBySide (state ex_windup_unit) (u_side ex_attacker) = Some ''a'' \<and>
   (\<exists>t'. map_get (serverUnits (handleAttackWindup ex_windup_unit ''p1'')) ''p2'' = Some t' \<and>
         u_hp t' = 0 \<and> u_state t' = DIE) \<and>
   getKillCount (handleAttackWindup ex_windup_unit ''p1'') ''a''
     = getKillCount ex_windup_unit ''a'' + 1 \<and>
   players (state (handleAttackWindup ex_windup_unit ''p1'')) = players (state ex_windup_unit) \<and>
   map_get (serverUnits ex_windup_castle) ''p1'' = Some ex_sieger \<and>
   d_attackWindupMs (u_definition ex_sieger) \<le> u_stateTimer ex_sieger \<and>
   \<not> hasLiveTarget ex_windup_castle ex_sieger \<and> isInRangeOfEnemyCastle ex_sieger \<and>
   getPlayerBySide (state ex_windup_castle) (enemy_of (u_side ex_sieger)) = Some (ex_player ''b'' 200) \<and>
   getSessionIdBySide (state ex_windup_castle) (enemy_of (u_side ex_sieger)) = Some ''b'' \<and>
   players (state (handleAttackWindup ex_windup_castle ''p1''))
     = map_set ''b'' ((ex_player ''b'' 200)\<lparr> p_castleHp := 4950 \<rparr>)
         (players (state ex_windup_castle)) \<and>
   map_option u_hp (map_get (serverUnits (handleAttackWindup ex_windup_castle ''p1'')) ''p1'')
     = Some (u_hp ex_sieger)"
proof -
  have u1: "map_get (serverUnits ex_windup_unit) ''p1'' = Some ex_attacker" by code_simp
  have w1: "d_attackWindupMs (u_definition ex_attacker) \<le> u_stateTimer ex_attacker" by code_simp
  have tg: "u_targetId ex_attacker = Some ''p2'' \<and> ''p2'' \<noteq> ''p1'' \<and>
            lookupTarget ex_windup_unit ex_attacker = Some ex_victim \<and> u_state ex_victim \<noteq> DIE"
    by code_simp
  have dead: "u_hp ex_victim - d_attackDamage (u_definition ex_attacker) \<le> 0" by code_simp
  have sess: "getSessionIdBySide (state ex_windup_unit) (u_side ex_attacker) = Some ''a''"
    by code_simp
  note unit_case = windup_completion_damages_unit_or_castle [OF u1 w1]
  from unit_case tg obtain t' where t':
    "map_get (serverUnits (handleAttackWindup ex_windup_unit ''p1'')) ''p2'' = Some t'"
    "u_hp t' = max 0 (u_hp ex_victim - d_attackDamage (u_definition ex_attacker))"
    "u_hp ex_victim - d_attackDamage (u_definition ex_attacker) \<le> 0 \<longrightarrow>
       u_state t' = DIE \<and>
       (\<forall>sid. getSessionIdBySide (state ex_windup_unit) (u_side ex_attacker) = Some sid \<and> sid \<noteq> [] \<longrightarrow>
          getKillCount (handleAttackWindup ex_windup_unit ''p1'') sid
            = getKillCount ex_windup_unit sid + 1)"
    by blast
  from t' dead have r1: "\<exists>t'. map_get (serverUnits (handleAttackWindup ex_windup_unit ''p1'')) ''p2'' = Some t' \<and>
         u_hp t' = 0 \<and> u_state t' = DIE"
    by auto
  from t'(3) dead sess have r2: "getKillCount (handleAttackWindup ex_windup_unit ''p1'') ''a''
     = getKillCount ex_windup_unit ''a'' + 1"
    by auto
  from unit_case tg have r3:
    "players (state (handleAttackWindup ex_windup_unit ''p1'')) = players (state ex_windup_unit)"
    by blast
  have u2: "map_get (serverUnits ex_windup_castle) ''p1'' = Some ex_sieger" by code_simp
  have w2: "d_attackWindupMs (u_definition ex_sieger) \<le> u_stateTimer ex_sieger" by code_simp
  have nl: "\<not> hasLiveTarget ex_windup_castle ex_sieger" by code_simp
  have rng: "isInRangeOfEnemyCastle ex_sieger" by code_simp
  have ep: "getPlayerBySide (state ex_windup_castle) (enemy_of (u_side ex_sieger))
              = Some (ex_player ''b'' 200)"
    by code_simp
  have es: "getSessionIdBySide (state ex_windup_castle) (enemy_of (u_side ex_sieger)) = Some ''b''"
    by code_simp
  have hp: "max 0 (p_castleHp (ex_player ''b'' 200) - d_attackDamage (u_definition ex_sieger)) = 4950"
    by code_simp
  note castle_case = windup_completion_damages_unit_or_castle [OF u2 w2]
  from castle_case nl ep es have
    "players (state (handleAttackWindup ex_windup_castle ''p1'')) =
       (if isInRangeOfEnemyCastle ex_sieger
        then map_set ''b''
               ((ex_player ''b'' 200)\<lparr> p_castleHp :=
                  max 0 (p_castleHp (ex_player ''b'' 200) - d_attackDamage (u_definition ex_sieger)) \<rparr>)
               (players (state ex_windup_castle))
        else players (state ex_windup_castle))"
    by blast
  with rng hp have r4: "players (state (handleAttackWindup ex_windup_castle ''p1''))
     = map_set ''b'' ((ex_player ''b'' 200)\<lparr> p_castleHp := 4950 \<rparr>)
         (players (state ex_windup_castle))"
    by simp
  from castle_case nl have r5:
    "map_option u_hp (map_get (serverUnits (handleAttackWindup ex_windup_castle ''p1'')) ''p1'')
       = Some (u_hp ex_sieger)"
    by blast
  show ?thesis
    using u1 w1 tg dead sess r1 r2 r3 u2 w2 nl rng ep es r4 r5 by blast
qed

subsection \<open>Knockback\<close>

text \<open>
  Claim C6.  Let a unit that is not in state DIE take a hit it survives
  (\<open>hp - damage > 0\<close>).  Knockback fires exactly if the unit is not a boss and its
  accumulated damage, this hit included, is at least \<open>maxHp * 0.15\<close>.  If it fires,
  \<open>damageAccumulated\<close> is 0, the unit is in HITSTUN with a fresh state timer, and \<open>x\<close> has
  moved by the attacker's knockback away from the enemy (towards \<open>-x\<close> for a player1
  unit, clamped from below at 80; towards \<open>+x\<close> for a player2 unit, clamped from above at
  \<open>stageLength - 30\<close>); for a unit that was inside the lane and a knockback that is not
  negative, \<open>80 \<le> x \<le> stageLength - 30\<close> holds afterwards.  If it does not fire, the hit
  only lowers hp and adds to the accumulated damage.
\<close>

theorem knockback_on_surviving_hit:
  assumes alive: "u_state t \<noteq> DIE"
    and survives: "0 < u_hp t - damage"
  shows "(let t' = fst (applyDamage cs t damage knockback sd);
              fires = (\<not> d_isBoss (u_definition t) \<and>
                       u_maxHp t * 0.15 \<le> u_damageAccumulated t + damage)
          in snd (applyDamage cs t damage knockback sd) = killCounts cs \<and>
             u_hp t' = u_hp t - damage \<and>
             (if fires then
                u_damageAccumulated t' = 0 \<and>
                u_state t' = HITSTUN \<and> u_stateTimer t' = 0 \<and>
                u_x t' = (if u_side t = Player1 then max (u_x t - knockback) 80
                          else min (u_x t + knockback) (stageLength (state cs) - 30)) \<and>
                (0 \<le> knockback \<and> 80 \<le> u_x t \<and> u_x t \<le> stageLength (state cs) - 30 \<longrightarrow>
                   80 \<le> u_x t' \<and> u_x t' \<le> stageLength (state cs) - 30)
              else
                u_damageAccumulated t' = u_damageAccumulated t + damage \<and>
                u_state t' = u_state t \<and> u_stateTimer t' = u_stateTimer t \<and> u_x t' = u_x t))"
  using assms
  by (auto simp: applyDamage_def Let_def setUnitState_def)

theorem knockback_on_surviving_hit_witness:
  "u_state ex_healthy \<noteq> DIE \<and> 0 < u_hp ex_healthy - 50 \<and>
   \<not> d_isBoss (u_definition ex_healthy) \<and>
   u_maxHp ex_healthy * 0.15 \<le> u_damageAccumulated ex_healthy + 50 \<and>
   (0::real) \<le> 20 \<and> 80 \<le> u_x ex_healthy \<and> u_x ex_healthy \<le> stageLength (state ex_windup_unit) - 30 \<and>
   u_hp (fst (applyDamage ex_windup_unit ex_healthy 50 20 (Some Player1))) = 50 \<and>
   u_damageAccumulated (fst (applyDamage ex_windup_unit ex_healthy 50 20 (Some Player1))) = 0 \<and>
   u_state (fst (applyDamage ex_windup_unit ex_healthy 50 20 (Some Player1))) = HITSTUN \<and>
   u_stateTimer (fst (applyDamage ex_windup_unit ex_healthy 50 20 (Some Player1))) = 0 \<and>
   u_x (fst (applyDamage ex_windup_unit ex_healthy 50 20 (Some Player1))) = 600 \<and>
   80 \<le> u_x (fst (applyDamage ex_windup_unit ex_healthy 50 20 (Some Player1))) \<and>
   u_x (fst (applyDamage ex_windup_unit ex_healthy 50 20 (Some Player1)))
     \<le> stageLength (state ex_windup_unit) - 30"
proof -
  have a: "u_state ex_healthy \<noteq> DIE" by code_simp
  have s: "0 < u_hp ex_healthy - 50" by code_simp
  have f: "\<not> d_isBoss (u_definition ex_healthy) \<and>
           u_maxHp ex_healthy * 0.15 \<le> u_damageAccumulated ex_healthy + 50"
    by code_simp
  have b: "(0::real) \<le> 20 \<and> 80 \<le> u_x ex_healthy \<and>
           u_x ex_healthy \<le> stageLength (state ex_windup_unit) - 30"
    by code_simp
  have v: "u_hp ex_healthy - 50 = 50" "u_side ex_healthy = Player2"
    "min (u_x ex_healthy + 20) (stageLength (state ex_windup_unit) - 30) = 600"
    by code_simp+
  note inst = knockback_on_surviving_hit [OF a s, of ex_windup_unit 20 "Some Player1"]
  let ?t' = "fst (applyDamage ex_windup_unit ex_healthy 50 20 (Some Player1))"
  from inst f have r: "u_hp ?t' = u_hp ex_healthy - 50 \<and>
      u_damageAccumulated ?t' = 0 \<and> u_state ?t' = HITSTUN \<and> u_stateTimer ?t' = 0 \<and>
      u_x ?t' = (if u_side ex_healthy = Player1 then max (u_x ex_healthy - 20) 80
                 else min (u_x ex_healthy + 20) (stageLength (state ex_windup_unit) - 30)) \<and>
      (0 \<le> (20::real) \<and> 80 \<le> u_x ex_healthy \<and> u_x ex_healthy \<le> stageLength (state ex_windup_unit) - 30 \<longrightarrow>
         80 \<le> u_x ?t' \<and> u_x ?t' \<le> stageLength (state ex_windup_unit) - 30)"
    by (simp add: Let_def)
  from r v have "u_hp ?t' = 50" "u_x ?t' = 600" by simp_all
  with r b a s f show ?thesis by blast
qed

subsection \<open>Walking towards a dead target\<close>

text \<open>
  Claim C2, the code at an input where it departs from the claim.  The walking unit
  \<open>ex_walker\<close> has a target that is in state DIE and in range, and the enemy castle is
  out of range: \<open>handleWalk\<close> still moves it to ATTACK_WINDUP, since it tests only that
  the target exists and is in range.  Such a state arises inside one tick: in
  \<open>ex_tick_kill\<close> every target is alive, \<open>pA\<close> kills \<open>pT\<close> when its windup completes, and
  \<open>pB\<close>, updated after \<open>pA\<close>, leaves WALK for ATTACK_WINDUP against the dead \<open>pT\<close>.
\<close>

theorem walk_winds_up_on_dead_target:
  "u_state ex_walker = WALK \<and>
   map_option u_state (lookupTarget ex_walk_dead_target ex_walker) = Some DIE \<and>
   \<not> isInRangeOfEnemyCastle ex_walker \<and>
   \<not> isBlockedByEnemy ex_walk_dead_target ex_walker \<and>
   u_state (handleWalk ex_walk_dead_target ex_walker 50) = ATTACK_WINDUP \<and>
   u_x (handleWalk ex_walk_dead_target ex_walker 50) = u_x ex_walker \<and>
   map_option u_state (map_get (serverUnits ex_tick_kill) ''pT'') = Some WALK \<and>
   map_option u_state (map_get (serverUnits ex_tick_kill) ''pB'') = Some WALK \<and>
   map_option u_targetId (map_get (serverUnits ex_tick_kill) ''pB'') = Some (Some ''pT'') \<and>
   map_option u_state (map_get (serverUnits (ServerCombatSystem_update ex_tick_kill 50)) ''pA'')
     = Some ATTACK_COOLDOWN \<and>
   map_option u_state (map_get (serverUnits (ServerCombatSystem_update ex_tick_kill 50)) ''pT'')
     = Some DIE \<and>
   map_option u_state (map_get (serverUnits (ServerCombatSystem_update ex_tick_kill 50)) ''pB'')
     = Some ATTACK_WINDUP"
  by code_simp

subsection \<open>The seats of the players\<close>











lemma collide_pair_state: "state (collide_pair cs ka kb) = state cs"
  by (simp add: collide_pair_def Let_def split: option.splits)

lemma collide_inner_state: "state (foldl (\<lambda>c kb. collide_pair c ka kb) cs ks) = state cs"
  by (induction ks arbitrary: cs) (simp_all add: collide_pair_state)

lemma collide_outer_state: "state (collide_outer cs ks) = state cs"
  by (induction ks arbitrary: cs) (simp_all add: collide_inner_state)

lemma assignTargets_unit_state: "state (assignTargets_unit cs k) = state cs"
  by (simp add: assignTargets_unit_def split: option.splits)

lemma assignTargets_loop_state: "state (foldl assignTargets_unit cs ks) = state cs"
  by (induction ks arbitrary: cs) (simp_all add: assignTargets_unit_state)


lemma checkWin_players: "players (state (checkWinCondition cs)) = players (state cs)"
  by (simp add: checkWinCondition_def split: prod.splits option.splits)


section \<open>Properties of the room\<close>

lemma room_state_simps [simp]:
  "room_state (set_state r st) = st"
  "room_state (emit r e) = room_state r"
  "room_state (sendError r c code m) = room_state r"
  "room_state (r\<lparr> spawnCooldowns := sc \<rparr>) = room_state r"
  "room_state (r\<lparr> metadata := md \<rparr>) = room_state r"
  "room_state (r\<lparr> locked := lk \<rparr>) = room_state r"
  "room_state (r\<lparr> gameLoop := gl \<rparr>) = room_state r"
  "room_state (r\<lparr> countdownIntervals := ci \<rparr>) = room_state r"
  "room_state (r\<lparr> lastUpdateTime := lu \<rparr>) = room_state r"
  "room_state (stopGameLoop r) = room_state r"
  by (simp_all add: room_state_def set_state_def emit_def sendError_def stopGameLoop_def)

lemma effects_simps [simp]:
  "effects (set_state r st) = effects r"
  "effects (emit r e) = effects r @ [e]"
  "effects (sendError r c code m) = effects r @ [Send c (Error code m)]"
  "effects (stopGameLoop r) = effects r"
  by (simp_all add: set_state_def emit_def sendError_def stopGameLoop_def)

lemma timers_simps [simp]:
  "countdownIntervals (set_state r st) = countdownIntervals r"
  "countdownIntervals (emit r e) = countdownIntervals r"
  "countdownIntervals (sendError r c code m) = countdownIntervals r"
  "countdownIntervals (stopGameLoop r) = countdownIntervals r"
  "gameLoop (set_state r st) = gameLoop r"
  "gameLoop (emit r e) = gameLoop r"
  "gameLoop (sendError r c code m) = gameLoop r"
  "gameLoop (stopGameLoop r) = False"
  by (simp_all add: set_state_def emit_def sendError_def stopGameLoop_def)

subsection \<open>Summon with insufficient cost\<close>

text \<open>
  Claim C5.  A summon in the playing phase by a player of the room, for a unit that is
  in the catalog and in the player's deck and whose spawn cooldown has run out, when
  the unit costs more than the player has, changes nothing in the room (cost, spawn
  cooldowns, units and everything else are as before) except that exactly one message
  is sent: an error with code INSUFFICIENT_COST, to the client that sent the summon.
\<close>

theorem summon_insufficient_cost:
  assumes "phase (room_state r) = Playing"
    and "map_get (players (room_state r)) client = Some player"
    and "getUnitDefinition unitId = Some definition"
    and "unitId \<in> set (p_deck player)"
    and "cooldown_remaining r client unitId \<le> 0"
    and "p_cost player < d_cost definition"
  shows "handleSummon getUnitDefinition now rnd r client unitId =
           r\<lparr> effects := effects r @
                  [Send client (Error INSUFFICIENT_COST
                     [Txt ''Not enough cost: '', Num (p_cost player), Txt '' < '',
                      Num (d_cost definition)])] \<rparr>"
  using assms
  by (simp add: handleSummon_def Let_def canAfford_def sendError_def emit_def)

theorem summon_insufficient_cost_witness:
  "phase (room_state ex_poor_room) = Playing \<and>
   map_get (players (room_state ex_poor_room)) ''a'' = Some (ex_player ''a'' 50) \<and>
   ex_catalog ''unitA'' = Some ex_definition \<and>
   ''unitA'' \<in> set (p_deck (ex_player ''a'' 50)) \<and>
   cooldown_remaining ex_poor_room ''a'' ''unitA'' \<le> 0 \<and>
   p_cost (ex_player ''a'' 50) < d_cost ex_definition \<and>
   handleSummon ex_catalog ''0'' ''x'' ex_poor_room ''a'' ''unitA'' =
     ex_poor_room\<lparr> effects := effects ex_poor_room @
        [Send ''a'' (Error INSUFFICIENT_COST
           [Txt ''Not enough cost: '', Num 50, Txt '' < '', Num 100])] \<rparr>"
proof -
  have a: "phase (room_state ex_poor_room) = Playing" by code_simp
  have b: "map_get (players (room_state ex_poor_room)) ''a'' = Some (ex_player ''a'' 50)"
    by code_simp
  have c: "ex_catalog ''unitA'' = Some ex_definition" by code_simp
  have d: "''unitA'' \<in> set (p_deck (ex_player ''a'' 50))" by code_simp
  have e: "cooldown_remaining ex_poor_room ''a'' ''unitA'' \<le> 0" by code_simp
  have f: "p_cost (ex_player ''a'' 50) < d_cost ex_definition" by code_simp
  have v: "p_cost (ex_player ''a'' 50) = 50" "d_cost ex_definition = 100" by code_simp+
  note inst = summon_insufficient_cost
    [where getUnitDefinition = ex_catalog and unitId = "''unitA''" and now = "''0''" and rnd = "''x''",
     OF a b c d e f]
  show ?thesis using a b c d e f inst unfolding v by blast
qed

subsection \<open>Spawn after the spend\<close>


lemma map_get_in_set: "map_get m k = Some v \<Longrightarrow> (k, v) \<in> set m"
  by (simp add: map_get_def map_of_SomeD)


lemma recalc_fields:
  "phase (room_state (recalculateGameSpeed r)) = phase (room_state r)"
  "winnerId (room_state (recalculateGameSpeed r)) = winnerId (room_state r)"
  "winReason (room_state (recalculateGameSpeed r)) = winReason (room_state r)"
  "players (room_state (recalculateGameSpeed r)) = players (room_state r)"
  "gameLoop (recalculateGameSpeed r) = gameLoop r"
  "countdownIntervals (recalculateGameSpeed r) = countdownIntervals r"
  by (simp_all add: recalculateGameSpeed_def Let_def)




































subsection \<open>Joining a full room\<close>

text \<open>
  Claim C10.  A join on a room that already holds two players changes nothing in the
  room (no player is created; the players map, the units, the phase, the metadata and
  all other fields are as before) except that the joining client is disconnected.
\<close>

theorem join_full_room_is_rejected:
  assumes "2 \<le> length (players (room_state r))"
  shows "onJoin getUnitDefinition now r client options
           = r\<lparr> effects := effects r @ [ClientLeave client] \<rparr>"
  using assms by (simp add: onJoin_def emit_def)

theorem join_full_room_is_rejected_witness:
  "2 \<le> length (players (room_state ex_poor_room)) \<and>
   onJoin ex_catalog 7 ex_poor_room ''c'' ex_options
     = ex_poor_room\<lparr> effects := effects ex_poor_room @ [ClientLeave ''c''] \<rparr>"
proof -
  have a: "2 \<le> length (players (room_state ex_poor_room))" by code_simp
  from join_full_room_is_rejected [OF a] a show ?thesis by blast
qed

subsection \<open>Steps that leave the countdown alone\<close>

lemma quiet_simps [simp]:
  "quiet []"
  "quiet (Send c m # es) = quiet es"
  "quiet (ClientLeave c # es) = quiet es"
  "quiet (Lock # es) = quiet es"
  "quiet (SaveBattleResult br # es) = quiet es"
  "quiet (Broadcast (SpeedUpdate g v) # es) = quiet es"
  "quiet (Broadcast (PlayerJoined p) # es) = quiet es"
  by (simp_all add: quiet_def)

lemma countdown_updates_append:
  "countdown_updates (xs @ ys) = countdown_updates xs @ countdown_updates ys"
  by (induction xs rule: countdown_updates.induct) simp_all

lemma quiet_append: "quiet xs \<Longrightarrow> quiet ys \<Longrightarrow> quiet (xs @ ys)"
  by (simp add: quiet_def countdown_updates_append)

lemma quiet_ext_refl: "quiet_ext r r"
  by (simp add: quiet_ext_def)

text \<open>Each way of building the next room keeps \<open>quiet_ext\<close>.\<close>

lemma qe_emit: "quiet [e] \<Longrightarrow> quiet_ext r x \<Longrightarrow> quiet_ext r (emit x e)"
  unfolding quiet_ext_def using quiet_append by auto

lemma qe_sendError: "quiet_ext r x \<Longrightarrow> quiet_ext r (sendError x c code m)"
  unfolding sendError_def by (rule qe_emit) simp_all

lemma qe_set_state:
  "quiet_ext r x \<Longrightarrow> countdown st = countdown (room_state x) \<Longrightarrow>
   phase st = phase (room_state x) \<or> phase st = Finished \<Longrightarrow> quiet_ext r (set_state x st)"
  unfolding quiet_ext_def by auto

lemma qe_fields:
  "quiet_ext r x \<Longrightarrow> quiet_ext r (x\<lparr> spawnCooldowns := sc \<rparr>)"
  "quiet_ext r x \<Longrightarrow> quiet_ext r (x\<lparr> metadata := md \<rparr>)"
  "quiet_ext r x \<Longrightarrow> quiet_ext r (x\<lparr> locked := lk \<rparr>)"
  unfolding quiet_ext_def by auto

lemma qe_stop: "quiet_ext r x \<Longrightarrow> quiet_ext r (stopGameLoop x)"
  unfolding quiet_ext_def by auto

lemma qe_if: "quiet_ext r x \<Longrightarrow> quiet_ext r y \<Longrightarrow> quiet_ext r (if b then x else y)"
  by simp

lemma qe_case_option:
  "quiet_ext r x \<Longrightarrow> (\<And>v. quiet_ext r (f v)) \<Longrightarrow>
   quiet_ext r (case opt of None \<Rightarrow> x | Some v \<Rightarrow> f v)"
  by (cases opt) simp_all

lemma qe_recalc: "quiet_ext r x \<Longrightarrow> quiet_ext r (recalculateGameSpeed x)"
  unfolding recalculateGameSpeed_def Let_def
  by (intro qe_emit qe_if qe_set_state) simp_all

lemma onJoin_quiet: "quiet_ext r (onJoin cat now r c opts)"
  unfolding onJoin_def Let_def
  by (intro qe_emit qe_if qe_fields qe_recalc qe_set_state quiet_ext_refl) simp_all

lemma winner_fold:
  "countdown (foldl (\<lambda>s (sessionId, player). if sessionId \<noteq> client
        then s\<lparr> winnerId := sessionId, winReason := w \<rparr> else s) st ps) = countdown st"
  by (induction ps arbitrary: st) (auto split: prod.splits)

lemma onLeave_quiet: "quiet_ext r (onLeave r c)"
  unfolding onLeave_def Let_def
  by (intro qe_recalc qe_set_state qe_fields qe_if qe_case_option qe_stop quiet_ext_refl)
     (simp_all add: winner_fold)

lemma handleReady_quiet:
  "phase (room_state r) \<noteq> Waiting \<Longrightarrow> quiet_ext r (handleReady r c)"
  by (cases "map_get (players (room_state r)) c")
     (simp_all add: handleReady_def Let_def quiet_ext_refl qe_set_state)

lemma handleSummon_quiet:
  "phase (room_state r) \<noteq> Playing \<Longrightarrow> quiet_ext r (handleSummon cat now rnd r c u)"
  by (simp add: handleSummon_def qe_sendError quiet_ext_refl)

lemma handleUpgradeCost_quiet:
  "phase (room_state r) \<noteq> Playing \<Longrightarrow> quiet_ext r (handleUpgradeCost r c)"
  by (simp add: handleUpgradeCost_def qe_sendError quiet_ext_refl)

lemma handleSpeedVote_quiet: "quiet_ext r (handleSpeedVote r c b)"
  unfolding handleSpeedVote_def
  by (intro qe_if qe_recalc qe_set_state quiet_ext_refl) simp_all

lemma counting_quiet_ext: "counting r n \<Longrightarrow> quiet_ext r r' \<Longrightarrow> counting r' n"
  by (auto simp: counting_def quiet_ext_def)

text \<open>While the countdown stands, every input but a firing of the countdown interval
  leaves it alone.\<close>

lemma step_quiet:
  assumes "counting r n" and "\<And>t. i \<noteq> CountdownFire t"
  shows "quiet_ext r (step cat r i)"
proof (cases i)
  case (Join c opts now)
  then show ?thesis by (simp add: onJoin_quiet)
next
  case (Leave c)
  then show ?thesis by (simp add: onLeave_quiet)
next
  case (Ready c)
  then show ?thesis using assms(1) by (auto simp: counting_def intro: handleReady_quiet)
next
  case (Summon c u now rnd)
  then show ?thesis using assms(1) by (auto simp: counting_def intro: handleSummon_quiet)
next
  case (UpgradeCost c)
  then show ?thesis using assms(1) by (auto simp: counting_def intro: handleUpgradeCost_quiet)
next
  case (SpeedVote c b)
  then show ?thesis by (simp add: handleSpeedVote_quiet)
next
  case (CountdownFire t)
  then show ?thesis using assms(2) by simp
next
  case (GameLoopFire t)
  then show ?thesis using assms(1) by (simp add: counting_def quiet_ext_refl)
qed

subsection \<open>The log only grows\<close>

lemma grows_refl: "grows r r"
  by (simp add: grows_def)

lemma grows_trans: "grows r r' \<Longrightarrow> grows r' r'' \<Longrightarrow> grows r r''"
  by (auto simp: grows_def)

lemma quiet_ext_grows: "quiet_ext r r' \<Longrightarrow> grows r r'"
  by (auto simp: quiet_ext_def grows_def)

lemma gr_emit: "grows r x \<Longrightarrow> grows r (emit x e)"
  by (auto simp: grows_def)

lemma gr_sendError: "grows r x \<Longrightarrow> grows r (sendError x c code m)"
  by (auto simp: grows_def)

lemma gr_set_state: "grows r x \<Longrightarrow> grows r (set_state x st)"
  by (auto simp: grows_def)

lemma gr_stop: "grows r x \<Longrightarrow> grows r (stopGameLoop x)"
  by (auto simp: grows_def)

lemma gr_fields:
  "grows r x \<Longrightarrow> grows r (x\<lparr> spawnCooldowns := sc \<rparr>)"
  "grows r x \<Longrightarrow> grows r (x\<lparr> metadata := md \<rparr>)"
  "grows r x \<Longrightarrow> grows r (x\<lparr> locked := lk \<rparr>)"
  "grows r x \<Longrightarrow> grows r (x\<lparr> combatSystem := cs \<rparr>)"
  "grows r x \<Longrightarrow> grows r (x\<lparr> gameLoop := gl \<rparr>)"
  "grows r x \<Longrightarrow> grows r (x\<lparr> countdownIntervals := ci \<rparr>)"
  "grows r x \<Longrightarrow> grows r (x\<lparr> lastUpdateTime := lu \<rparr>)"
  by (auto simp: grows_def)

lemma gr_if: "grows r x \<Longrightarrow> grows r y \<Longrightarrow> grows r (if b then x else y)"
  by simp

lemma gr_case_option:
  "grows r x \<Longrightarrow> (\<And>v. grows r (f v)) \<Longrightarrow> grows r (case opt of None \<Rightarrow> x | Some v \<Rightarrow> f v)"
  by (cases opt) simp_all

lemma gr_case_prod: "(\<And>a b. grows r (f a b)) \<Longrightarrow> grows r (case p of (a, b) \<Rightarrow> f a b)"
  by (cases p) simp

lemma gr_save: "grows r x \<Longrightarrow> grows r (saveBattleResult x)"
  by (auto simp: grows_def saveBattleResult_def split: list.splits prod.splits)

lemma gr_startGame: "grows r x \<Longrightarrow> grows r (startGame now x)"
  unfolding startGame_def Let_def
  by (intro gr_emit gr_fields gr_set_state)

lemma gr_startCountdown: "grows r x \<Longrightarrow> grows r (startCountdown x)"
  unfolding startCountdown_def Let_def
  by (intro gr_emit gr_fields gr_set_state)

lemma step_grows: "grows r (step cat r i)"
proof (cases i)
  case (Join c opts now)
  then show ?thesis by (simp add: onJoin_quiet quiet_ext_grows)
next
  case (Leave c)
  then show ?thesis by (simp add: onLeave_quiet quiet_ext_grows)
next
  case (Ready c)
  have "grows r (handleReady r c)"
    unfolding handleReady_def Let_def
    by (intro gr_case_option gr_if gr_startCountdown gr_set_state grows_refl)
  with Ready show ?thesis by simp
next
  case (Summon c u now rnd)
  have "grows r (handleSummon cat now rnd r c u)"
    unfolding handleSummon_def Let_def
    by (intro gr_case_option gr_case_prod gr_if gr_sendError gr_emit gr_fields gr_set_state
          grows_refl)
  with Summon show ?thesis by simp
next
  case (UpgradeCost c)
  have "grows r (handleUpgradeCost r c)"
    unfolding handleUpgradeCost_def
    by (intro gr_case_option gr_if gr_sendError gr_set_state grows_refl)
  with UpgradeCost show ?thesis by simp
next
  case (SpeedVote c b)
  then show ?thesis by (simp add: handleSpeedVote_quiet quiet_ext_grows)
next
  case (CountdownFire t)
  have "grows r (countdownTick t r)"
    unfolding countdownTick_def Let_def
    by (intro gr_if gr_startGame gr_emit gr_fields gr_set_state grows_refl)
  with CountdownFire show ?thesis by (simp add: grows_refl)
next
  case (GameLoopFire t)
  have "grows r (tick t r)"
    unfolding tick_def Let_def
    by (intro gr_if gr_emit gr_save gr_stop gr_fields gr_set_state grows_refl)
  with GameLoopFire show ?thesis by (simp add: grows_refl)
qed

lemma run_Cons: "run cat r (i # ins) = run cat (step cat r i) ins"
  by (simp add: run_def)

lemma run_grows: "grows r (run cat r ins)"
proof (induction ins arbitrary: r)
  case Nil
  show ?case by (simp add: run_def grows_refl)
next
  case (Cons i ins)
  have "grows r (step cat r i)" by (rule step_grows)
  moreover have "grows (step cat r i) (run cat (step cat r i) ins)" by (rule Cons.IH)
  ultimately show ?case by (simp add: run_def grows_trans)
qed

subsection \<open>The countdown\<close>

lemma fire_continue:
  assumes "counting r n" and "1 < n"
  shows "counting (step cat r (CountdownFire t)) (n - 1)"
    and "effects (step cat r (CountdownFire t)) = effects r @ [Broadcast (CountdownUpdate (n - 1))]"
  using assms by (simp_all add: counting_def countdownTick_def Let_def)

lemma fire_last:
  assumes "counting r n" and "n \<le> 1"
  shows "\<exists>pl. pc_phase pl = Playing \<and>
           effects (step cat r (CountdownFire t))
             = effects r @ [Broadcast (CountdownUpdate (n - 1)), Broadcast (PhaseChange pl)]"
  using assms by (simp add: counting_def countdownTick_def startGame_def phase_payload_def Let_def)

lemma down_from_step:
  assumes "1 \<le> n"
  shows "down_from n = (n - 1) # down_from (n - 1)"
proof -
  have "nat n = Suc (nat (n - 1))" using assms by arith
  moreover have "int (nat (n - 1)) = n - 1" using assms by simp
  ultimately show ?thesis by (simp add: down_from_def)
qed

lemma before_playing_append:
  "\<not> list_ex is_playing_change q \<Longrightarrow> before_playing (q @ es) = q @ before_playing es"
  by (induction q) (auto simp: before_playing_def)

text \<open>From a room whose countdown stands at \<open>n\<close>, whatever arrives: if the change to
  \<open>playing\<close> is broadcast, the countdown updates before it carry \<open>n - 1, \<dots>, 0\<close>.\<close>

lemma countdown_run:
  assumes "counting r n" and "1 \<le> n"
    and "list_ex is_playing_change (new_effects r (run cat r ins))"
  shows "countdown_updates (before_playing (new_effects r (run cat r ins))) = down_from n"
  using assms
proof (induction ins arbitrary: r n)
  case Nil
  then show ?case by (simp add: run_def new_effects_def)
next
  case (Cons i ins)
  let ?r1 = "step cat r i"
  obtain tl where tl: "effects (run cat ?r1 ins) = effects ?r1 @ tl"
    using run_grows [of ?r1 cat ins] by (auto simp: grows_def)
  then have tl_new: "new_effects ?r1 (run cat ?r1 ins) = tl"
    by (simp add: new_effects_def)
  show ?case
  proof (cases "\<exists>t. i = CountdownFire t")
    case False
    then have q: "quiet_ext r ?r1"
      using Cons.prems(1) by (intro step_quiet) auto
    then obtain hd where hd: "effects ?r1 = effects r @ hd" "quiet hd"
      by (auto simp: quiet_ext_def)
    have new: "new_effects r (run cat r (i # ins)) = hd @ tl"
      by (simp add: run_Cons new_effects_def tl hd)
    have c1: "counting ?r1 n"
      using Cons.prems(1) q by (rule counting_quiet_ext)
    have "list_ex is_playing_change tl"
      using Cons.prems(3) hd(2) by (simp add: new quiet_def)
    then have "countdown_updates (before_playing tl) = down_from n"
      using Cons.IH [OF c1 Cons.prems(2)] tl_new by simp
    then show ?thesis
      using hd(2) by (simp add: new before_playing_append countdown_updates_append quiet_def)
  next
    case True
    then obtain t where i: "i = CountdownFire t" by blast
    show ?thesis
    proof (cases "1 < n")
      case True
      note f = fire_continue [OF Cons.prems(1) True, of cat t]
      have new: "new_effects r (run cat r (i # ins)) = Broadcast (CountdownUpdate (n - 1)) # tl"
        using f(2) tl unfolding i by (simp add: run_Cons new_effects_def del: step.simps)
      have "list_ex is_playing_change tl"
        using Cons.prems(3) by (simp add: new)
      moreover have "counting ?r1 (n - 1)"
        using f(1) i by simp
      ultimately have "countdown_updates (before_playing tl) = down_from (n - 1)"
        using Cons.IH [of ?r1 "n - 1"] True tl_new by simp
      then show ?thesis
        using Cons.prems(2) by (simp add: new before_playing_def down_from_step)
    next
      case False
      then have n1: "n = 1" using Cons.prems(2) by simp
      from fire_last [OF Cons.prems(1), of cat t] False obtain pl where
        pl: "pc_phase pl = Playing"
        "effects ?r1 = effects r @ [Broadcast (CountdownUpdate (n - 1)), Broadcast (PhaseChange pl)]"
        using i by auto
      have new: "new_effects r (run cat r (i # ins))
                   = Broadcast (CountdownUpdate (n - 1)) # Broadcast (PhaseChange pl) # tl"
        using pl(2) tl unfolding i by (simp add: run_Cons new_effects_def del: step.simps)
      show ?thesis
        using pl(1) n1 by (simp add: new before_playing_def down_from_def)
    qed
  qed
qed

lemma handleReady_start:
  assumes w: "phase (room_state r0) = Waiting"
    and ci: "countdownIntervals r0 = 0" and gl: "\<not> gameLoop r0"
    and c: "phase (room_state (handleReady r0 client)) = Countdown"
  shows "counting (handleReady r0 client) 3 \<and>
         (\<exists>pl. pc_phase pl = Countdown \<and>
               effects (handleReady r0 client) = effects r0 @ [Broadcast (PhaseChange pl)])"
proof (cases "map_get (players (room_state r0)) client")
  case None
  with w c show ?thesis by (simp add: handleReady_def)
next
  case (Some player)
  let ?r1 = "set_state r0 ((room_state r0)\<lparr> players :=
               map_set client (player\<lparr> p_ready := True \<rparr>) (players (room_state r0)) \<rparr>)"
  define go where "go \<longleftrightarrow> list_all (\<lambda>(sid, p). p_ready p) (players (room_state ?r1)) \<and>
             length (players (room_state ?r1)) = 2 \<and> phase (room_state ?r1) = Waiting"
  have hr: "handleReady r0 client = (if go then startCountdown ?r1 else ?r1)"
    unfolding go_def using Some by (simp add: handleReady_def Let_def)
  show ?thesis
  proof (cases go)
    case True
    then have "handleReady r0 client = startCountdown ?r1" using hr by simp
    then show ?thesis
      using ci gl
      by (simp add: startCountdown_def Let_def counting_def COUNTDOWN_SECONDS_def phase_payload_def)
  next
    case False
    then have "handleReady r0 client = ?r1" using hr by simp
    with w c show ?thesis by simp
  qed
qed

text \<open>
  Claim C3, as the code has it.  Let a \<open>ready\<close> message in the waiting phase start the
  countdown (the room then holds two players, both ready), with no timer live before.
  Whatever inputs follow, if the \<open>phase_change\<close> to \<open>playing\<close> is broadcast, then the
  \<open>countdown_update\<close> broadcasts before it are exactly three and carry 2, 1, 0 in that
  order: the interval decrements the counter before it broadcasts it, and the value 3
  goes out with the \<open>phase_change\<close> to \<open>countdown\<close>.
\<close>

theorem countdown_updates_before_playing:
  assumes "phase (room_state r0) = Waiting"
    and "countdownIntervals r0 = 0" and "\<not> gameLoop r0"
    and "phase (room_state (handleReady r0 client)) = Countdown"
    and "list_ex is_playing_change (new_effects r0 (run cat (handleReady r0 client) ins))"
  shows "countdown_updates (before_playing (new_effects r0 (run cat (handleReady r0 client) ins)))
           = [2, 1, 0]"
proof -
  let ?r = "handleReady r0 client"
  from handleReady_start [OF assms(1-4)] have st: "counting ?r 3"
    "\<exists>pl. pc_phase pl = Countdown \<and> effects ?r = effects r0 @ [Broadcast (PhaseChange pl)]"
    by blast+
  from st(2) obtain pl
    where pl: "pc_phase pl = Countdown" "effects ?r = effects r0 @ [Broadcast (PhaseChange pl)]"
    by blast
  obtain tl where tl: "effects (run cat ?r ins) = effects ?r @ tl"
    using run_grows [of ?r cat ins] by (auto simp: grows_def)
  have new0: "new_effects r0 (run cat ?r ins) = Broadcast (PhaseChange pl) # tl"
    by (simp add: new_effects_def tl pl(2))
  have new1: "new_effects ?r (run cat ?r ins) = tl"
    by (simp add: new_effects_def tl)
  have "list_ex is_playing_change tl"
    using assms(5) pl(1) by (simp add: new0)
  then have "countdown_updates (before_playing tl) = down_from 3"
    using countdown_run [OF st(1), of cat ins] new1 by simp
  moreover have "down_from 3 = [2, 1, 0]"
    by (simp add: down_from_def numeral_3_eq_3)
  ultimately show ?thesis
    using pl(1) by (simp add: new0 before_playing_def)
qed

theorem countdown_updates_before_playing_witness:
  "phase (room_state ex_one_ready_room) = Waiting \<and>
   countdownIntervals ex_one_ready_room = 0 \<and> \<not> gameLoop ex_one_ready_room \<and>
   phase (room_state (handleReady ex_one_ready_room ''b'')) = Countdown \<and>
   list_ex is_playing_change
     (new_effects ex_one_ready_room
        (run ex_catalog (handleReady ex_one_ready_room ''b'')
           [CountdownFire 1000, SpeedVote ''a'' True, CountdownFire 2000, Ready ''a'',
            CountdownFire 3000])) \<and>
   countdown_updates (before_playing
     (new_effects ex_one_ready_room
        (run ex_catalog (handleReady ex_one_ready_room ''b'')
           [CountdownFire 1000, SpeedVote ''a'' True, CountdownFire 2000, Ready ''a'',
            CountdownFire 3000]))) = [2, 1, 0]"
proof -
  have a: "phase (room_state ex_one_ready_room) = Waiting" by code_simp
  have b: "countdownIntervals ex_one_ready_room = 0" by code_simp
  have c: "\<not> gameLoop ex_one_ready_room" by code_simp
  have d: "phase (room_state (handleReady ex_one_ready_room ''b'')) = Countdown" by code_simp
  have e: "list_ex is_playing_change
     (new_effects ex_one_ready_room
        (run ex_catalog (handleReady ex_one_ready_room ''b'')
           [CountdownFire 1000, SpeedVote ''a'' True, CountdownFire 2000, Ready ''a'',
            CountdownFire 3000]))"
    by code_simp
  from countdown_updates_before_playing [OF a b c d e] a b c d e show ?thesis by blast
qed

text \<open>
  Claim C3 as stated fails: after both players are ready and the interval has fired
  three times, the \<open>phase_change\<close> to \<open>playing\<close> has been broadcast and the three
  \<open>countdown_update\<close> broadcasts before it carry 2, 1, 0, not 3, 2, 1.
\<close>

theorem countdown_values_counterexample:
  "list_ex is_playing_change
     (effects (run ex_catalog ex_ready_room [CountdownFire 1000, CountdownFire 2000, CountdownFire 3000])) \<and>
   countdown_updates (before_playing
     (effects (run ex_catalog ex_ready_room [CountdownFire 1000, CountdownFire 2000, CountdownFire 3000])))
     = [2, 1, 0] \<and>
   countdown_updates (before_playing
     (effects (run ex_catalog ex_ready_room [CountdownFire 1000, CountdownFire 2000, CountdownFire 3000])))
     \<noteq> [3, 2, 1]"
  by code_simp

subsection \<open>Disconnect during the countdown\<close>

text \<open>
  Claim C8, the code at an input where it departs from the claim.  Two players join
  and declare ready, the countdown interval fires once (countdown 2), then player
  \<open>a\<close> disconnects: the phase is finished, the winner is \<open>b\<close> with reason
  \<open>opponent_disconnected\<close>, no game loop runs and \<open>a\<close> is gone from the players map.  But
  the countdown interval is still live; after two more firings \<open>startGame\<close> has run, the
  phase is playing and the game loop runs.
\<close>

theorem disconnect_in_countdown_then_playing:
  "phase (room_state (run ex_catalog ex_ready_room [CountdownFire 1000])) = Countdown \<and>
   map fst (players (room_state (run ex_catalog ex_ready_room [CountdownFire 1000]))) = [''a'', ''b''] \<and>
   phase (room_state (run ex_catalog ex_ready_room [CountdownFire 1000, Leave ''a''])) = Finished \<and>
   winnerId (room_state (run ex_catalog ex_ready_room [CountdownFire 1000, Leave ''a''])) = ''b'' \<and>
   winReason (room_state (run ex_catalog ex_ready_room [CountdownFire 1000, Leave ''a'']))
     = ''opponent_disconnected'' \<and>
   map fst (players (room_state (run ex_catalog ex_ready_room [CountdownFire 1000, Leave ''a''])))
     = [''b''] \<and>
   \<not> gameLoop (run ex_catalog ex_ready_room [CountdownFire 1000, Leave ''a'']) \<and>
   countdownIntervals (run ex_catalog ex_ready_room [CountdownFire 1000, Leave ''a'']) = 1 \<and>
   phase (room_state (run ex_catalog ex_ready_room
            [CountdownFire 1000, Leave ''a'', CountdownFire 2000, CountdownFire 3000])) = Playing \<and>
   gameLoop (run ex_catalog ex_ready_room
            [CountdownFire 1000, Leave ''a'', CountdownFire 2000, CountdownFire 3000])"
  by code_simp

section \<open>Supporting facts\<close>

subsection \<open>Walking and blocking\<close>

text \<open>The loop of \<open>isBlockedByEnemy\<close> finds a live enemy in front that is too close; and
  for a unit whose target, if any, is not dead, \<open>handleWalk\<close> takes the four cases in
  order: target in range, castle in range, blocked, advance and clamp.\<close>

lemma isBlockedByEnemy_loop_iff:
  "isBlockedByEnemy_loop unit es \<longleftrightarrow>
     (\<exists>enemy \<in> set es.
        u_side enemy = enemy_of (u_side unit) \<and> u_state enemy \<noteq> DIE \<and>
        (if u_side unit = Player1 then u_x unit < u_x enemy else u_x enemy < u_x unit) \<and>
        getEdgeDistance unit enemy < (u_width unit + u_width enemy) / 2 * 0.5 + UNIT_MIN_DISTANCE)"
  by (induction es) (auto simp: Let_def)

lemma handleWalk_live_or_no_target:
  assumes "\<And>t. lookupTarget cs unit = Some t \<Longrightarrow> u_state t \<noteq> DIE"
  shows "handleWalk cs unit deltaMs =
           (if (\<exists>t. lookupTarget cs unit = Some t \<and> u_state t \<noteq> DIE \<and> isInRange unit t)
            then setUnitState unit ATTACK_WINDUP
            else if isInRangeOfEnemyCastle unit then setUnitState unit ATTACK_WINDUP
            else if isBlockedByEnemy cs unit then unit
            else unit\<lparr> u_x :=
                   (if u_side unit = Player1
                    then min (u_x unit + d_speed (u_definition unit) * (deltaMs / 1000))
                             (stageLength (state cs) - 30)
                    else max (u_x unit - d_speed (u_definition unit) * (deltaMs / 1000)) 80) \<rparr>)"
  using assms
  by (cases "lookupTarget cs unit") (auto simp: handleWalk_def Let_def)

subsection \<open>Disconnects\<close>

text \<open>With two players in the countdown or playing phase, \<open>onLeave\<close> finishes the room
  for the other player; a finished room with no timer left stays finished, so a
  disconnect in the playing phase, where the countdown interval is cleared, is final.\<close>

lemma onLeave_during_match:
  assumes ph: "phase (room_state r) = Countdown \<or> phase (room_state r) = Playing"
    and two: "players (room_state r) = [(k1, p1), (k2, p2)]" and ne: "k1 \<noteq> k2"
  shows "phase (room_state (onLeave r k1)) = Finished \<and>
         winnerId (room_state (onLeave r k1)) = k2 \<and>
         winReason (room_state (onLeave r k1)) = ''opponent_disconnected'' \<and>
         \<not> gameLoop (onLeave r k1) \<and>
         players (room_state (onLeave r k1)) = [(k2, p2)]"
    and "phase (room_state (onLeave r k2)) = Finished \<and>
         winnerId (room_state (onLeave r k2)) = k1 \<and>
         winReason (room_state (onLeave r k2)) = ''opponent_disconnected'' \<and>
         \<not> gameLoop (onLeave r k2) \<and>
         players (room_state (onLeave r k2)) = [(k1, p1)]"
  using assms
  by (auto simp: onLeave_def Let_def recalc_fields map_get_def map_delete_def)

lemma step_over:
  assumes "over r"
  shows "over (step cat r i)"
proof (cases i)
  case (Join c opts now)
  with assms onJoin_quiet [of r cat now c opts] show ?thesis by (auto simp: over_def quiet_ext_def)
next
  case (Leave c)
  with assms onLeave_quiet [of r c] show ?thesis by (auto simp: over_def quiet_ext_def)
next
  case (Ready c)
  with assms handleReady_quiet [of r c] show ?thesis by (auto simp: over_def quiet_ext_def)
next
  case (Summon c u now rnd)
  with assms handleSummon_quiet [of r cat now rnd c u] show ?thesis by (auto simp: over_def quiet_ext_def)
next
  case (UpgradeCost c)
  with assms handleUpgradeCost_quiet [of r c] show ?thesis by (auto simp: over_def quiet_ext_def)
next
  case (SpeedVote c b)
  with assms handleSpeedVote_quiet [of r c b] show ?thesis by (auto simp: over_def quiet_ext_def)
next
  case (CountdownFire t)
  with assms show ?thesis by (simp add: over_def)
next
  case (GameLoopFire t)
  with assms show ?thesis by (simp add: over_def)
qed

lemma run_over: "over r \<Longrightarrow> over (run cat r ins)"
  by (induction ins arbitrary: r) (simp_all add: run_def step_over del: step.simps)

lemma onLeave_playing_stays_finished:
  assumes "phase (room_state r) = Playing" and "countdownIntervals r = 0"
    and "map_get (players (room_state r)) client \<noteq> None"
  shows "phase (room_state (run cat (onLeave r client) ins)) = Finished"
proof -
  have "over (onLeave r client)"
    using assms by (auto simp: over_def onLeave_def Let_def recalc_fields)
  then have "over (run cat (onLeave r client) ins)" by (rule run_over)
  then show ?thesis by (simp add: over_def)
qed

subsection \<open>Units stay in the lane\<close>

text \<open>For definitions with non-negative speed and knockback and a non-negative
  \<open>deltaMs\<close>, spawning and the combat update keep every unit within
  \<open>80 \<le> x \<le> stageLength - 30\<close>.\<close>

lemma set_map_set: "set (map_set k v m) \<subseteq> insert (k, v) (set m)"
  by (induction m) auto

lemma lane_inv_get:
  assumes "lane_inv cs" and "map_get (serverUnits cs) k = Some u"
  shows "in_lane (stageLength (state cs)) u"
proof -
  from assms(2) have "(k, u) \<in> set (serverUnits cs)" by (rule map_get_in_set)
  with assms(1) show ?thesis by (force simp: lane_inv_def list_all_iff)
qed

lemma lane_inv_set:
  "lane_inv cs \<Longrightarrow> in_lane (stageLength (state cs)) u \<Longrightarrow>
   lane_inv (cs\<lparr> serverUnits := map_set k u (serverUnits cs) \<rparr>)"
  using set_map_set [of k u "serverUnits cs"]
  by (auto simp: lane_inv_def list_all_iff)

lemma in_lane_timer [simp]: "in_lane sl (u\<lparr> u_stateTimer := t \<rparr>) = in_lane sl u"
  and in_lane_state [simp]: "in_lane sl (setUnitState u s) = in_lane sl u"
  and in_lane_target [simp]: "in_lane sl (u\<lparr> u_targetId := tg \<rparr>) = in_lane sl u"
  by (simp_all add: in_lane_def setUnitState_def)

lemma handleWalk_lane:
  assumes "in_lane (stageLength (state cs)) u" and "0 \<le> d"
  shows "in_lane (stageLength (state cs)) (handleWalk cs u d)"
proof -
  have "0 \<le> d_speed (u_definition u) * d / 1000"
    using assms by (simp add: in_lane_def)
  then show ?thesis
    using assms(1) by (auto simp: handleWalk_def Let_def in_lane_def setUnitState_def)
qed

lemma applyDamage_lane:
  "in_lane (stageLength (state cs)) t \<Longrightarrow> 0 \<le> kb \<Longrightarrow>
   in_lane (stageLength (state cs)) (fst (applyDamage cs t dmg kb sd))"
  by (auto simp: applyDamage_def Let_def in_lane_def setUnitState_def)

lemma dealDamage_lane:
  assumes "lane_inv cs" and "in_lane (stageLength (state cs)) a"
  shows "lane_inv (dealDamage cs a)"
proof (cases "hasLiveTarget cs a")
  case True
  then obtain t tid where t: "lookupTarget cs a = Some t" "u_state t \<noteq> DIE" "u_targetId a = Some tid"
    by (auto simp: hasLiveTarget_def lookupTarget_def split: option.splits)
  then have "map_get (serverUnits cs) tid = Some t"
    by (auto simp: lookupTarget_def split: if_splits)
  then have "in_lane (stageLength (state cs)) t" using assms(1) by (intro lane_inv_get)
  then have "in_lane (stageLength (state cs)) (fst (applyDamage cs t (d_attackDamage (u_definition a))
                                      (d_knockback (u_definition a)) (Some (u_side a))))"
    using assms(2) by (intro applyDamage_lane) (simp_all add: in_lane_def)
  with assms(1) have "lane_inv (cs\<lparr> serverUnits :=
      map_set tid (fst (applyDamage cs t (d_attackDamage (u_definition a))
                          (d_knockback (u_definition a)) (Some (u_side a)))) (serverUnits cs) \<rparr>)"
    by (rule lane_inv_set)
  then show ?thesis
    by (simp add: dealDamage_live [OF t] lane_inv_def)
next
  case False
  have "stageLength (state (dealDamage cs a)) = stageLength (state cs)"
    by (auto simp: dealDamage_def Let_def split_beta split: option.splits)
  then show ?thesis
    using assms(1) dealDamage_no_live(1) [OF False] by (simp add: lane_inv_def)
qed

lemma handleAttackWindup_lane:
  assumes "lane_inv cs"
  shows "lane_inv (handleAttackWindup cs k)"
proof (cases "map_get (serverUnits cs) k")
  case None
  with assms show ?thesis by (simp add: handleAttackWindup_def)
next
  case (Some a)
  then have a: "in_lane (stageLength (state cs)) a" using assms by (intro lane_inv_get)
  have dd: "lane_inv (dealDamage cs a)" using assms a by (rule dealDamage_lane)
  show ?thesis
  proof (cases "map_get (serverUnits (dealDamage cs a)) k")
    case None
    with Some dd assms show ?thesis by (simp add: handleAttackWindup_def Let_def)
  next
    case (Some a1)
    then have "in_lane (stageLength (state (dealDamage cs a))) a1" using dd by (intro lane_inv_get)
    then have "lane_inv ((dealDamage cs a)\<lparr> serverUnits :=
        map_set k (setUnitState a1 ATTACK_COOLDOWN) (serverUnits (dealDamage cs a)) \<rparr>)"
      using dd by (intro lane_inv_set) simp_all
    with Some \<open>map_get (serverUnits cs) k = Some a\<close> assms show ?thesis
      by (simp add: handleAttackWindup_def Let_def)
  qed
qed

lemma updateUnitState_lane:
  assumes "lane_inv cs" and "0 \<le> d"
  shows "lane_inv (updateUnitState cs k d)"
proof (cases "map_get (serverUnits cs) k")
  case None
  with assms show ?thesis by (simp add: updateUnitState_def)
next
  case (Some u)
  then have u: "in_lane (stageLength (state cs)) u" using assms(1) by (intro lane_inv_get)
  show ?thesis
    using Some assms u
    by (cases "u_state u")
       (simp_all add: updateUnitState_def lane_inv_set handleWalk_lane handleAttackWindup_lane
          handleSpawn_def handleHitstun_def handleAttackCooldown_def)
qed

lemma syncSchema_lane: "lane_inv cs \<Longrightarrow> lane_inv (syncSchema cs k)"
  by (auto simp: syncSchema_def lane_inv_def split: option.splits)

lemma update_unit_lane:
  assumes "lane_inv cs" and "0 \<le> d"
  shows "lane_inv (update_unit d cs k)"
proof (cases "map_get (serverUnits cs) k")
  case None
  with assms show ?thesis by (simp add: update_unit_def)
next
  case (Some u)
  then have "in_lane (stageLength (state cs)) u" using assms(1) by (intro lane_inv_get)
  then have "lane_inv (cs\<lparr> serverUnits := map_set k (u\<lparr> u_stateTimer := u_stateTimer u + d \<rparr>) (serverUnits cs) \<rparr>)"
    using assms(1) by (intro lane_inv_set) simp_all
  then show ?thesis
    using Some assms(2) by (simp add: update_unit_def Let_def syncSchema_lane updateUnitState_lane)
qed

lemma update_loop_lane: "lane_inv cs \<Longrightarrow> 0 \<le> d \<Longrightarrow> lane_inv (foldl (update_unit d) cs ks)"
  by (induction ks arbitrary: cs) (simp_all add: update_unit_lane)

lemma clamp_lane:
  "1120 \<le> stageLength (state cs) \<Longrightarrow> 0 \<le> d_speed (u_definition u) \<Longrightarrow> 0 \<le> d_knockback (u_definition u) \<Longrightarrow>
   in_lane (stageLength (state cs)) (clampUnitPosition cs u)"
  by (auto simp: clampUnitPosition_def in_lane_def Let_def CASTLE_POSITIONS_def)

lemma collide_pair_lane:
  assumes "lane_inv cs"
  shows "lane_inv (collide_pair cs ka kb)"
proof (cases "map_get (serverUnits cs) ka")
  case None
  with assms show ?thesis by (simp add: collide_pair_def)
next
  case a: (Some ua)
  show ?thesis
  proof (cases "map_get (serverUnits cs) kb")
    case None
    with a assms show ?thesis by (simp add: collide_pair_def)
  next
    case b: (Some ub)
    from a b assms have la: "in_lane (stageLength (state cs)) ua" and lb: "in_lane (stageLength (state cs)) ub"
      by (auto intro: lane_inv_get)
    have sl: "1120 \<le> stageLength (state cs)" using assms by (simp add: lane_inv_def)
    have step: "\<And>va vb. in_lane (stageLength (state cs)) va \<Longrightarrow> in_lane (stageLength (state cs)) vb \<Longrightarrow>
        lane_inv (cs\<lparr> serverUnits := map_set kb vb (map_set ka va (serverUnits cs)) \<rparr>)"
    proof -
      fix va vb
      assume va: "in_lane (stageLength (state cs)) va" and vb: "in_lane (stageLength (state cs)) vb"
      have "lane_inv (cs\<lparr> serverUnits := map_set ka va (serverUnits cs) \<rparr>)"
        using assms va by (rule lane_inv_set)
      from lane_inv_set [OF this, of vb kb] vb
      show "lane_inv (cs\<lparr> serverUnits := map_set kb vb (map_set ka va (serverUnits cs)) \<rparr>)"
        by simp
    qed
    show ?thesis
      using a b assms la lb sl
      by (auto simp: collide_pair_def Let_def intro!: step clamp_lane simp: in_lane_def)
  qed
qed

lemma collide_inner_lane: "lane_inv cs \<Longrightarrow> lane_inv (foldl (\<lambda>c kb. collide_pair c ka kb) cs ks)"
  by (induction ks arbitrary: cs) (simp_all add: collide_pair_lane)

lemma collide_outer_lane: "lane_inv cs \<Longrightarrow> lane_inv (collide_outer cs ks)"
  by (induction ks arbitrary: cs) (simp_all add: collide_inner_lane)

lemma assignTargets_unit_lane: "lane_inv cs \<Longrightarrow> lane_inv (assignTargets_unit cs k)"
  by (cases "map_get (serverUnits cs) k")
     (auto simp: assignTargets_unit_def intro!: lane_inv_set dest: lane_inv_get)

lemma assignTargets_lane: "lane_inv cs \<Longrightarrow> lane_inv (assignTargets cs)"
proof -
  have "\<And>ks. lane_inv cs \<Longrightarrow> lane_inv (foldl assignTargets_unit cs ks)" for cs
  proof -
    fix ks show "lane_inv cs \<Longrightarrow> lane_inv (foldl assignTargets_unit cs ks)"
      by (induction ks arbitrary: cs) (simp_all add: assignTargets_unit_lane)
  qed
  then show "lane_inv cs \<Longrightarrow> lane_inv (assignTargets cs)"
    by (simp add: assignTargets_def)
qed

lemma cleanup_loop_lane:
  "lane_inv cs \<Longrightarrow>
   lane_inv (foldl (\<lambda>c instanceId.
                  c\<lparr> serverUnits := map_delete instanceId (serverUnits c),
                     state := (state c)\<lparr> units := map_delete instanceId (units (state c)) \<rparr> \<rparr>) cs ks)"
  by (induction ks arbitrary: cs) (auto simp: lane_inv_def list_all_iff map_delete_def)

lemma cleanup_lane: "lane_inv cs \<Longrightarrow> lane_inv (cleanupDeadUnits cs)"
  by (simp add: cleanupDeadUnits_def Let_def cleanup_loop_lane)

lemma checkWin_lane: "lane_inv cs \<Longrightarrow> lane_inv (checkWinCondition cs)"
  by (auto simp: checkWinCondition_def lane_inv_def split: prod.splits option.splits)

lemma update_keeps_units_in_lane:
  assumes "lane_inv cs" and "0 \<le> deltaMs"
  shows "lane_inv (ServerCombatSystem_update cs deltaMs)"
  unfolding ServerCombatSystem_update_def resolveUnitCollisions_def
  by (intro checkWin_lane cleanup_lane assignTargets_lane collide_outer_lane update_loop_lane assms)

lemma spawnUnit_lane:
  assumes "lane_inv cs"
    and "\<And>d. getUnitDefinition unitId = Some d \<Longrightarrow> 0 \<le> d_speed d \<and> 0 \<le> d_knockback d"
  shows "lane_inv (fst (spawnUnit getUnitDefinition now rnd cs player unitId))"
proof (cases "getUnitDefinition unitId")
  case None
  with assms(1) show ?thesis by (simp add: spawnUnit_def)
next
  case (Some d)
  show ?thesis
  proof (cases "getPlayerSide (state cs) (p_sessionId player)")
    case None
    with Some assms(1) show ?thesis by (simp add: spawnUnit_def)
  next
    case sd: (Some sd)
    have "\<And>k u. in_lane (stageLength (state cs)) u \<Longrightarrow>
             list_all (\<lambda>e. in_lane (stageLength (state cs)) (snd e)) (map_set k u (serverUnits cs))"
      using assms(1) set_map_set by (fastforce simp: lane_inv_def list_all_iff)
    then show ?thesis
      using Some sd assms(1) assms(2) [OF Some]
      by (auto simp: spawnUnit_def Let_def lane_inv_def in_lane_def CASTLE_POSITIONS_def)
  qed
qed

subsection \<open>No unit is its own target\<close>

text \<open>\<open>findTarget\<close> returns the instance id of a unit of the enemy side, so spawning and
  the combat update keep every unit stored under its instance id and apart from its
  target.\<close>

lemma keys_map_set: "set (map fst (map_set k v m)) = insert k (set (map fst m))"
  by (induction m) auto

lemma distinct_map_set: "distinct (map fst m) \<Longrightarrow> distinct (map fst (map_set k v m))"
  by (induction m) (auto simp: keys_map_set simp flip: set_map)

lemma wt_set:
  assumes "well_targeted cs" and "u_instanceId u = k" and "u_targetId u \<noteq> Some k"
  shows "well_targeted (cs\<lparr> serverUnits := map_set k u (serverUnits cs) \<rparr>)"
  using assms set_map_set [of k u "serverUnits cs"]
  by (auto simp: well_targeted_def distinct_map_set list_all_iff own_key_def)

lemma wt_get:
  assumes "well_targeted cs" and "map_get (serverUnits cs) k = Some u"
  shows "u_instanceId u = k \<and> u_targetId u \<noteq> Some k"
proof -
  from assms(2) have "(k, u) \<in> set (serverUnits cs)" by (rule map_get_in_set)
  with assms(1) show ?thesis by (force simp: well_targeted_def list_all_iff own_key_def)
qed

lemma wt_frame:
  "serverUnits cs' = serverUnits cs \<Longrightarrow> well_targeted cs' = well_targeted cs"
  by (simp add: well_targeted_def)

lemma applyDamage_ids:
  "u_instanceId (fst (applyDamage cs t dmg kb sd)) = u_instanceId t"
  "u_targetId (fst (applyDamage cs t dmg kb sd)) = u_targetId t"
  by (simp_all add: applyDamage_def Let_def setUnitState_def)

lemma dealDamage_wt:
  assumes "well_targeted cs"
  shows "well_targeted (dealDamage cs a)"
proof (cases "hasLiveTarget cs a")
  case True
  then obtain t tid where t: "lookupTarget cs a = Some t" "u_state t \<noteq> DIE" "u_targetId a = Some tid"
    by (auto simp: hasLiveTarget_def lookupTarget_def split: option.splits)
  then have "map_get (serverUnits cs) tid = Some t"
    by (auto simp: lookupTarget_def split: if_splits)
  with assms have "u_instanceId t = tid \<and> u_targetId t \<noteq> Some tid" by (rule wt_get)
  with assms have "well_targeted (cs\<lparr> serverUnits :=
      map_set tid (fst (applyDamage cs t (d_attackDamage (u_definition a))
                          (d_knockback (u_definition a)) (Some (u_side a)))) (serverUnits cs) \<rparr>)"
    by (intro wt_set) (simp_all add: applyDamage_ids)
  then show ?thesis
    by (simp add: dealDamage_live [OF t] well_targeted_def)
next
  case False
  with assms dealDamage_no_live(1) [OF False] show ?thesis by (simp add: well_targeted_def)
qed

lemma handleAttackWindup_wt:
  assumes "well_targeted cs"
  shows "well_targeted (handleAttackWindup cs k)"
proof (cases "map_get (serverUnits cs) k")
  case None
  with assms show ?thesis by (simp add: handleAttackWindup_def)
next
  case (Some a)
  have dd: "well_targeted (dealDamage cs a)" using assms by (rule dealDamage_wt)
  show ?thesis
  proof (cases "map_get (serverUnits (dealDamage cs a)) k")
    case None
    with Some dd assms show ?thesis by (simp add: handleAttackWindup_def Let_def)
  next
    case a1: (Some a1)
    with dd have "u_instanceId a1 = k \<and> u_targetId a1 \<noteq> Some k" by (rule wt_get)
    with dd have "well_targeted ((dealDamage cs a)\<lparr> serverUnits :=
        map_set k (setUnitState a1 ATTACK_COOLDOWN) (serverUnits (dealDamage cs a)) \<rparr>)"
      by (intro wt_set) (simp_all add: setUnitState_def)
    with a1 Some assms show ?thesis
      by (simp add: handleAttackWindup_def Let_def)
  qed
qed

lemma handlers_ids:
  "u_instanceId (handleSpawn u) = u_instanceId u" "u_targetId (handleSpawn u) = u_targetId u"
  "u_instanceId (handleHitstun u) = u_instanceId u" "u_targetId (handleHitstun u) = u_targetId u"
  "u_instanceId (handleWalk cs u d) = u_instanceId u" "u_targetId (handleWalk cs u d) = u_targetId u"
  "u_instanceId (handleAttackCooldown cs u) = u_instanceId u"
  "u_targetId (handleAttackCooldown cs u) = u_targetId u \<or> u_targetId (handleAttackCooldown cs u) = None"
  by (simp_all add: handleSpawn_def handleHitstun_def handleWalk_def handleAttackCooldown_def
        setUnitState_def Let_def)

lemma updateUnitState_wt:
  assumes "well_targeted cs"
  shows "well_targeted (updateUnitState cs k d)"
proof (cases "map_get (serverUnits cs) k")
  case None
  with assms show ?thesis by (simp add: updateUnitState_def)
next
  case (Some u)
  with assms have u: "u_instanceId u = k \<and> u_targetId u \<noteq> Some k" by (rule wt_get)
  have ac: "u_targetId (handleAttackCooldown cs u) \<noteq> Some k"
    using handlers_ids(8) [of cs u] u by auto
  show ?thesis
    using Some assms u ac
    by (cases "u_state u")
       (simp_all add: updateUnitState_def wt_set handlers_ids(1-7) handleAttackWindup_wt)
qed

lemma syncSchema_wt: "well_targeted cs \<Longrightarrow> well_targeted (syncSchema cs k)"
  by (auto simp: syncSchema_def well_targeted_def split: option.splits)

lemma update_unit_wt:
  assumes "well_targeted cs"
  shows "well_targeted (update_unit d cs k)"
proof (cases "map_get (serverUnits cs) k")
  case None
  with assms show ?thesis by (simp add: update_unit_def)
next
  case (Some u)
  with assms have "u_instanceId u = k \<and> u_targetId u \<noteq> Some k" by (rule wt_get)
  with assms have "well_targeted (cs\<lparr> serverUnits :=
        map_set k (u\<lparr> u_stateTimer := u_stateTimer u + d \<rparr>) (serverUnits cs) \<rparr>)"
    by (intro wt_set) simp_all
  then show ?thesis
    using Some by (simp add: update_unit_def Let_def syncSchema_wt updateUnitState_wt)
qed

lemma update_loop_wt: "well_targeted cs \<Longrightarrow> well_targeted (foldl (update_unit d) cs ks)"
  by (induction ks arbitrary: cs) (simp_all add: update_unit_wt)

lemma clamp_ids:
  "u_instanceId (clampUnitPosition cs u) = u_instanceId u"
  "u_targetId (clampUnitPosition cs u) = u_targetId u"
  by (simp_all add: clampUnitPosition_def Let_def)

lemma collide_pair_wt:
  assumes "well_targeted cs"
  shows "well_targeted (collide_pair cs ka kb)"
proof (cases "map_get (serverUnits cs) ka")
  case None
  with assms show ?thesis by (simp add: collide_pair_def)
next
  case a: (Some ua)
  show ?thesis
  proof (cases "map_get (serverUnits cs) kb")
    case None
    with a assms show ?thesis by (simp add: collide_pair_def)
  next
    case b: (Some ub)
    from assms a have ia: "u_instanceId ua = ka \<and> u_targetId ua \<noteq> Some ka" by (rule wt_get)
    from assms b have ib: "u_instanceId ub = kb \<and> u_targetId ub \<noteq> Some kb" by (rule wt_get)
    have step: "\<And>(va::ServerUnit) (vb::ServerUnit). u_instanceId va = ka \<and> u_targetId va \<noteq> Some ka \<Longrightarrow>
        u_instanceId vb = kb \<and> u_targetId vb \<noteq> Some kb \<Longrightarrow>
        well_targeted (cs\<lparr> serverUnits := map_set kb vb (map_set ka va (serverUnits cs)) \<rparr>)"
    proof -
      fix va vb :: ServerUnit
      assume va: "u_instanceId va = ka \<and> u_targetId va \<noteq> Some ka"
        and vb: "u_instanceId vb = kb \<and> u_targetId vb \<noteq> Some kb"
      have "well_targeted (cs\<lparr> serverUnits := map_set ka va (serverUnits cs) \<rparr>)"
        using assms va by (intro wt_set) simp_all
      from wt_set [OF this, of vb kb] vb
      show "well_targeted (cs\<lparr> serverUnits := map_set kb vb (map_set ka va (serverUnits cs)) \<rparr>)"
        by simp
    qed
    show ?thesis
      using a b
      apply (simp add: collide_pair_def Let_def)
      apply (intro conjI impI step assms)
             apply (simp_all add: clamp_ids ia ib)
      done
  qed
qed

lemma collide_inner_wt: "well_targeted cs \<Longrightarrow> well_targeted (foldl (\<lambda>c kb. collide_pair c ka kb) cs ks)"
  by (induction ks arbitrary: cs) (simp_all add: collide_pair_wt)

lemma collide_outer_wt: "well_targeted cs \<Longrightarrow> well_targeted (collide_outer cs ks)"
  by (induction ks arbitrary: cs) (simp_all add: collide_inner_wt)

lemma findTarget_loop_enemy:
  assumes "findTarget_loop attacker es front anyone = Some i"
    and "\<And>e d. front = Some (e, d) \<Longrightarrow> e \<in> E \<and> u_side e = enemy_of (u_side attacker)"
    and "\<And>e d. anyone = Some (e, d) \<Longrightarrow> e \<in> E \<and> u_side e = enemy_of (u_side attacker)"
    and "set es \<subseteq> E"
  shows "\<exists>e \<in> E. u_instanceId e = i \<and> u_side e = enemy_of (u_side attacker)"
  using assms
proof (induction es arbitrary: front anyone)
  case Nil
  then show ?case by (auto split: option.splits)
next
  case (Cons unit rest)
  show ?case
  proof (cases "u_side unit \<noteq> enemy_of (u_side attacker) \<or> u_state unit = DIE \<or>
                getEdgeDistance attacker unit > d_attackRange (u_definition attacker) + 20")
    case True
    with Cons.prems(1) have "findTarget_loop attacker rest front anyone = Some i"
      by (auto simp: Let_def split: if_splits)
    from Cons.IH [OF this Cons.prems(2) Cons.prems(3)] Cons.prems(4) show ?thesis by auto
  next
    case False
    then have u: "unit \<in> E" "u_side unit = enemy_of (u_side attacker)"
      using Cons.prems(4) by auto
    from False Cons.prems(1) obtain front' anyone' where
      r: "findTarget_loop attacker rest front' anyone' = Some i"
      and f: "front' = front \<or> (\<exists>d. front' = Some (unit, d))"
      and a: "anyone' = anyone \<or> (\<exists>d. anyone' = Some (unit, d))"
      by (auto simp: Let_def split: if_splits)
    show ?thesis
    proof (rule Cons.IH [OF r])
      fix e d assume "front' = Some (e, d)"
      with f u Cons.prems(2) show "e \<in> E \<and> u_side e = enemy_of (u_side attacker)" by auto
    next
      fix e d assume "anyone' = Some (e, d)"
      with a u Cons.prems(3) show "e \<in> E \<and> u_side e = enemy_of (u_side attacker)" by auto
    next
      show "set rest \<subseteq> E" using Cons.prems(4) by simp
    qed
  qed
qed

lemma findTarget_enemy:
  assumes "findTarget cs attacker = Some i"
  shows "\<exists>e \<in> set (serverUnits cs).
           u_instanceId (snd e) = i \<and> u_side (snd e) = enemy_of (u_side attacker)"
proof -
  have "\<exists>e \<in> snd ` set (serverUnits cs). u_instanceId e = i \<and> u_side e = enemy_of (u_side attacker)"
  proof (rule findTarget_loop_enemy [where front = None and anyone = None
                                       and es = "map snd (serverUnits cs)"])
    show "findTarget_loop attacker (map snd (serverUnits cs)) None None = Some i"
      using assms by (simp add: findTarget_def)
  qed simp_all
  then show ?thesis by blast
qed

lemma enemy_of_neq: "enemy_of s \<noteq> s"
  by (cases s) (simp_all add: enemy_of_def)

lemma findTarget_not_self:
  assumes "well_targeted cs" and "map_get (serverUnits cs) k = Some unit"
  shows "findTarget cs unit \<noteq> Some k"
proof
  assume "findTarget cs unit = Some k"
  from findTarget_enemy [OF this] obtain k' e where
    e: "(k', e) \<in> set (serverUnits cs)" "u_instanceId e = k" "u_side e = enemy_of (u_side unit)"
    by auto
  from assms(1) e(1) have "u_instanceId e = k'"
    by (force simp: well_targeted_def list_all_iff own_key_def)
  with e have ke: "(k, e) \<in> set (serverUnits cs)" by simp
  from assms(2) have "(k, unit) \<in> set (serverUnits cs)" by (rule map_get_in_set)
  with ke assms(1) have "e = unit"
    by (auto simp: well_targeted_def dest: eq_key_imp_eq_value)
  with e(3) enemy_of_neq show False by metis
qed

lemma assignTargets_unit_wt:
  assumes "well_targeted cs"
  shows "well_targeted (assignTargets_unit cs k)"
proof (cases "map_get (serverUnits cs) k")
  case None
  with assms show ?thesis by (simp add: assignTargets_unit_def)
next
  case (Some u)
  with assms have u: "u_instanceId u = k \<and> u_targetId u \<noteq> Some k" by (rule wt_get)
  have "findTarget cs u \<noteq> Some k" using assms Some by (rule findTarget_not_self)
  with assms u have "well_targeted (cs\<lparr> serverUnits :=
      map_set k (u\<lparr> u_targetId := findTarget cs u \<rparr>) (serverUnits cs) \<rparr>)"
    by (intro wt_set) simp_all
  with Some assms show ?thesis by (simp add: assignTargets_unit_def)
qed

lemma assignTargets_loop_wt: "well_targeted cs \<Longrightarrow> well_targeted (foldl assignTargets_unit cs ks)"
  by (induction ks arbitrary: cs) (simp_all add: assignTargets_unit_wt)

lemma cleanup_step_wt:
  "well_targeted c \<Longrightarrow>
   well_targeted (c\<lparr> serverUnits := map_delete i (serverUnits c),
                     state := (state c)\<lparr> units := map_delete i (units (state c)) \<rparr> \<rparr>)"
  by (auto simp: well_targeted_def list_all_iff map_delete_def distinct_map_filter)

lemma cleanup_loop_wt:
  "well_targeted cs \<Longrightarrow>
   well_targeted (foldl (\<lambda>c instanceId.
                  c\<lparr> serverUnits := map_delete instanceId (serverUnits c),
                     state := (state c)\<lparr> units := map_delete instanceId (units (state c)) \<rparr> \<rparr>) cs ks)"
  by (induction ks arbitrary: cs) (simp_all add: cleanup_step_wt)

lemma checkWin_wt: "well_targeted cs \<Longrightarrow> well_targeted (checkWinCondition cs)"
  by (auto simp: checkWinCondition_def well_targeted_def split: prod.splits option.splits)

lemma update_keeps_targets_apart:
  assumes "well_targeted cs"
  shows "well_targeted (ServerCombatSystem_update cs deltaMs)"
  unfolding ServerCombatSystem_update_def resolveUnitCollisions_def assignTargets_def
    cleanupDeadUnits_def Let_def
  by (intro checkWin_wt cleanup_loop_wt assignTargets_loop_wt collide_outer_wt update_loop_wt assms)

lemma wt_state:
  "well_targeted (c\<lparr> serverUnits := m, state := st \<rparr>) = well_targeted (c\<lparr> serverUnits := m \<rparr>)"
  by (simp add: well_targeted_def)

lemma spawnUnit_wt:
  assumes "well_targeted cs"
  shows "well_targeted (fst (spawnUnit getUnitDefinition now rnd cs player unitId))"
proof (cases "getUnitDefinition unitId")
  case None
  with assms show ?thesis by (simp add: spawnUnit_def)
next
  case (Some d)
  show ?thesis
  proof (cases "getPlayerSide (state cs) (p_sessionId player)")
    case None
    with Some assms show ?thesis by (simp add: spawnUnit_def)
  next
    case sd: (Some sd)
    show ?thesis
      using Some sd
      apply (simp add: spawnUnit_def Let_def wt_state)
      apply (intro conjI impI wt_set assms)
         apply simp_all
      done
  qed
qed

subsection \<open>Waiting rooms and the start of the countdown\<close>

text \<open>The combat update and \<open>spawnUnit\<close> leave the phase and the countdown alone, but for
  the win check, which may finish the game; so the tick and every message handler but
  \<open>handleReady\<close> leave the countdown alone.\<close>

lemma dealDamage_clock:
  "phase (state (dealDamage cs a)) = phase (state cs)"
  "countdown (state (dealDamage cs a)) = countdown (state cs)"
  by (simp_all add: dealDamage_def Let_def split_beta split: option.splits)

lemma handleAttackWindup_clock:
  "phase (state (handleAttackWindup cs k)) = phase (state cs)"
  "countdown (state (handleAttackWindup cs k)) = countdown (state cs)"
  by (simp_all add: handleAttackWindup_def Let_def dealDamage_clock split: option.splits)

lemma updateUnitState_clock:
  "phase (state (updateUnitState cs k d)) = phase (state cs)"
  "countdown (state (updateUnitState cs k d)) = countdown (state cs)"
  by (simp_all add: updateUnitState_def handleAttackWindup_clock split: option.splits UnitState.splits)

lemma syncSchema_clock:
  "phase (state (syncSchema cs k)) = phase (state cs)"
  "countdown (state (syncSchema cs k)) = countdown (state cs)"
  by (simp_all add: syncSchema_def split: option.splits)

lemma update_unit_clock:
  "phase (state (update_unit d cs k)) = phase (state cs)"
  "countdown (state (update_unit d cs k)) = countdown (state cs)"
  by (simp_all add: update_unit_def Let_def syncSchema_clock updateUnitState_clock
        split: option.splits)

lemma update_loop_clock:
  "phase (state (foldl (update_unit d) cs ks)) = phase (state cs)"
  "countdown (state (foldl (update_unit d) cs ks)) = countdown (state cs)"
  by (induction ks arbitrary: cs) (simp_all add: update_unit_clock)

lemma cleanup_loop_clock:
  "phase (state (foldl (\<lambda>c instanceId.
                  c\<lparr> serverUnits := map_delete instanceId (serverUnits c),
                     state := (state c)\<lparr> units := map_delete instanceId (units (state c)) \<rparr> \<rparr>) cs ks))
     = phase (state cs)"
  "countdown (state (foldl (\<lambda>c instanceId.
                  c\<lparr> serverUnits := map_delete instanceId (serverUnits c),
                     state := (state c)\<lparr> units := map_delete instanceId (units (state c)) \<rparr> \<rparr>) cs ks))
     = countdown (state cs)"
  by (induction ks arbitrary: cs) simp_all

lemma checkWin_clock:
  "phase (state (checkWinCondition cs)) = phase (state cs) \<or>
   phase (state (checkWinCondition cs)) = Finished"
  "countdown (state (checkWinCondition cs)) = countdown (state cs)"
  by (simp_all add: checkWinCondition_def split: prod.splits option.splits)

lemma update_clock:
  "phase (state (ServerCombatSystem_update cs d)) = phase (state cs) \<or>
   phase (state (ServerCombatSystem_update cs d)) = Finished"
  "countdown (state (ServerCombatSystem_update cs d)) = countdown (state cs)"
proof -
  let ?c = "cleanupDeadUnits (assignTargets (resolveUnitCollisions
              (foldl (update_unit d) cs (map fst (serverUnits cs)))))"
  have "phase (state ?c) = phase (state cs)" "countdown (state ?c) = countdown (state cs)"
    unfolding resolveUnitCollisions_def assignTargets_def cleanupDeadUnits_def Let_def
    by (simp_all add: cleanup_loop_clock assignTargets_loop_state collide_outer_state
          update_loop_clock)
  with checkWin_clock [of ?c]
  show "phase (state (ServerCombatSystem_update cs d)) = phase (state cs) \<or>
        phase (state (ServerCombatSystem_update cs d)) = Finished"
    and "countdown (state (ServerCombatSystem_update cs d)) = countdown (state cs)"
    by (simp_all add: ServerCombatSystem_update_def)
qed

lemma spawnUnit_clock:
  "phase (state (fst (spawnUnit cat now rnd cs p u))) = phase (state cs)"
  "countdown (state (fst (spawnUnit cat now rnd cs p u))) = countdown (state cs)"
  by (simp_all add: spawnUnit_def Let_def split: option.splits)

lemma quiet_more:
  "quiet (Broadcast (UnitsSync us) # es) = quiet es"
  "quiet (Broadcast (PlayersSync ps) # es) = quiet es"
  "quiet (Broadcast (UnitSpawned un) # es) = quiet es"
  "quiet (Broadcast (Error code m) # es) = quiet es"
  "quiet (Broadcast (AllPlayers al) # es) = quiet es"
  "pc_phase pl \<noteq> Playing \<Longrightarrow> quiet (Broadcast (PhaseChange pl) # es) = quiet es"
  by (simp_all add: quiet_def)

lemma qe_combat:
  "quiet_ext r x \<Longrightarrow> countdown (state cs) = countdown (room_state x) \<Longrightarrow>
   phase (state cs) = phase (room_state x) \<or> phase (state cs) = Finished \<Longrightarrow>
   quiet_ext r (x\<lparr> combatSystem := cs \<rparr>)"
  unfolding quiet_ext_def room_state_def by auto

lemma qe_time: "quiet_ext r x \<Longrightarrow> quiet_ext r (x\<lparr> lastUpdateTime := t \<rparr>)"
  unfolding quiet_ext_def by auto

lemma qe_save: "quiet_ext r x \<Longrightarrow> quiet_ext r (saveBattleResult x)"
  unfolding saveBattleResult_def
  by (auto split: list.splits prod.splits intro!: qe_emit)

lemma qe_update:
  assumes "quiet_ext r x"
  shows "quiet_ext r (x\<lparr> combatSystem := ServerCombatSystem_update (combatSystem x) d \<rparr>)"
  using assms update_clock [of "combatSystem x" d]
  by (intro qe_combat) (simp_all add: room_state_def)

lemma tick_quiet: "quiet_ext r (tick now r)"
  unfolding tick_def Let_def
  by (intro qe_if qe_emit qe_save qe_stop qe_update qe_fields qe_time qe_set_state quiet_ext_refl)
     (simp_all add: quiet_more phase_payload_def)

lemma handleSummon_quiet_ext: "quiet_ext r (handleSummon cat now rnd r c u)"
  unfolding handleSummon_def Let_def split_beta
  by (intro qe_if qe_case_option qe_sendError qe_emit qe_fields qe_combat qe_set_state
        quiet_ext_refl)
     (simp_all add: quiet_more spawnUnit_clock room_state_def set_state_def)

lemma handleUpgradeCost_quiet_ext: "quiet_ext r (handleUpgradeCost r c)"
  unfolding handleUpgradeCost_def
  by (intro qe_if qe_case_option qe_sendError qe_set_state quiet_ext_refl) simp_all

lemma waiting_quiet_ext:
  assumes "phase (room_state r) = Waiting \<longrightarrow> countdownIntervals r = 0 \<and> \<not> gameLoop r"
    and "quiet_ext r r'"
  shows "phase (room_state r') = Waiting \<longrightarrow> countdownIntervals r' = 0 \<and> \<not> gameLoop r'"
  using assms by (auto simp: quiet_ext_def)

lemma handleReady_waiting:
  assumes "phase (room_state r) = Waiting \<longrightarrow> countdownIntervals r = 0 \<and> \<not> gameLoop r"
  shows "phase (room_state (handleReady r c)) = Waiting \<longrightarrow>
           countdownIntervals (handleReady r c) = 0 \<and> \<not> gameLoop (handleReady r c)"
proof (cases "phase (room_state r) = Waiting")
  case False
  then have "quiet_ext r (handleReady r c)" by (rule handleReady_quiet)
  with assms show ?thesis by (rule waiting_quiet_ext)
next
  case True
  with assms show ?thesis
    by (cases "map_get (players (room_state r)) c")
       (simp_all add: handleReady_def Let_def startCountdown_def)
qed

lemma countdownTick_waiting:
  assumes "phase (room_state r) \<noteq> Waiting"
  shows "phase (room_state (countdownTick now r)) \<noteq> Waiting"
  using assms by (simp add: countdownTick_def startGame_def Let_def)

lemma step_waiting:
  assumes "phase (room_state r) = Waiting \<longrightarrow> countdownIntervals r = 0 \<and> \<not> gameLoop r"
  shows "phase (room_state (step cat r i)) = Waiting \<longrightarrow>
           countdownIntervals (step cat r i) = 0 \<and> \<not> gameLoop (step cat r i)"
proof (cases i)
  case (Join c opts now)
  with waiting_quiet_ext [OF assms onJoin_quiet] show ?thesis by simp
next
  case (Leave c)
  with waiting_quiet_ext [OF assms onLeave_quiet] show ?thesis by simp
next
  case (Ready c)
  with handleReady_waiting [OF assms] show ?thesis by simp
next
  case (Summon c u now rnd)
  with waiting_quiet_ext [OF assms handleSummon_quiet_ext] show ?thesis by simp
next
  case (UpgradeCost c)
  with waiting_quiet_ext [OF assms handleUpgradeCost_quiet_ext] show ?thesis by simp
next
  case (SpeedVote c b)
  with waiting_quiet_ext [OF assms handleSpeedVote_quiet] show ?thesis by simp
next
  case (CountdownFire t)
  show ?thesis
  proof (cases "countdownIntervals r > 0")
    case True
    with assms have "phase (room_state r) \<noteq> Waiting" by auto
    then have "phase (room_state (countdownTick t r)) \<noteq> Waiting" by (rule countdownTick_waiting)
    with CountdownFire True show ?thesis by simp
  next
    case False
    with CountdownFire assms show ?thesis by simp
  qed
next
  case (GameLoopFire t)
  show ?thesis
  proof (cases "gameLoop r")
    case True
    with GameLoopFire waiting_quiet_ext [OF assms tick_quiet] show ?thesis by simp
  next
    case False
    with GameLoopFire assms show ?thesis by simp
  qed
qed

lemma run_waiting:
  assumes "phase (room_state r) = Waiting \<longrightarrow> countdownIntervals r = 0 \<and> \<not> gameLoop r"
  shows "phase (room_state (run cat r ins)) = Waiting \<longrightarrow>
           countdownIntervals (run cat r ins) = 0 \<and> \<not> gameLoop (run cat r ins)"
  using assms
proof (induction ins arbitrary: r)
  case Nil
  then show ?case by (simp add: run_def)
next
  case (Cons i ins)
  from Cons.prems have "phase (room_state (step cat r i)) = Waiting \<longrightarrow>
      countdownIntervals (step cat r i) = 0 \<and> \<not> gameLoop (step cat r i)"
    by (rule step_waiting)
  then show ?case unfolding run_Cons by (rule Cons.IH)
qed

text \<open>Nothing assigns \<open>waiting\<close> to the phase, and both timers are created only when the room
  leaves it: in a room reached from \<open>onCreate\<close> that is in the waiting phase no timer is
  live.  The \<open>ready\<close> message that starts the countdown broadcasts \<open>phase_change\<close> with phase
  \<open>countdown\<close> and countdown 3.\<close>

lemma waiting_room_has_no_timer:
  assumes "phase (room_state (run cat (onCreate t0) ins)) = Waiting"
  shows "countdownIntervals (run cat (onCreate t0) ins) = 0 \<and> \<not> gameLoop (run cat (onCreate t0) ins)"
proof -
  have "phase (room_state (onCreate t0)) = Waiting \<longrightarrow>
          countdownIntervals (onCreate t0) = 0 \<and> \<not> gameLoop (onCreate t0)"
    by (simp add: onCreate_def)
  from run_waiting [OF this, of cat ins] assms show ?thesis by simp
qed

lemma ready_announces_three:
  assumes "phase (room_state r0) = Waiting"
    and "phase (room_state (handleReady r0 client)) = Countdown"
  shows "\<exists>pl. pc_phase pl = Countdown \<and> pc_countdown pl = Some 3 \<and>
               effects (handleReady r0 client) = effects r0 @ [Broadcast (PhaseChange pl)]"
proof (cases "map_get (players (room_state r0)) client")
  case None
  with assms show ?thesis by (simp add: handleReady_def)
next
  case (Some player)
  let ?r1 = "set_state r0 ((room_state r0)\<lparr> players :=
               map_set client (player\<lparr> p_ready := True \<rparr>) (players (room_state r0)) \<rparr>)"
  define go where "go \<longleftrightarrow> list_all (\<lambda>(sid, p). p_ready p) (players (room_state ?r1)) \<and>
             length (players (room_state ?r1)) = 2 \<and> phase (room_state ?r1) = Waiting"
  have hr: "handleReady r0 client = (if go then startCountdown ?r1 else ?r1)"
    unfolding go_def using Some by (simp add: handleReady_def Let_def)
  show ?thesis
  proof (cases go)
    case True
    then have "handleReady r0 client = startCountdown ?r1" using hr by simp
    then show ?thesis
      by (simp add: startCountdown_def Let_def COUNTDOWN_SECONDS_def phase_payload_def)
  next
    case False
    then have "handleReady r0 client = ?r1" using hr by simp
    with assms show ?thesis by simp
  qed
qed

end
